theory Spec2Isabelle
  imports Complex_Main
begin

section \<open>JavaScript values and the builtins the component uses\<close>

text \<open>
  The component under study is \<^verbatim>\<open>BusView\<close> (React, function component with hooks).
  Response bodies are JSON documents, so the values that flow through the component are
  modelled by a datatype of parsed JSON, extended with \<^verbatim>\<open>undefined\<close>, which property
  access produces for a missing key.  An object is the list of its own properties; keys
  are taken to be distinct (as after \<^verbatim>\<open>JSON.parse\<close>).
\<close>

datatype json =
    JUndefined
  | JNull
  | JBool bool
  | JNum real
  | JStr string
  | JArr "json list"
  | JObj "(string \<times> json) list"

text \<open>
  \<^verbatim>\<open>TypeError\<close> is what JavaScript throws on a property access on \<^verbatim>\<open>undefined\<close> or
  \<^verbatim>\<open>null\<close> and on a call of a non-function.  \<^verbatim>\<open>Unmodelled\<close> marks the few places
  where the JavaScript semantics is outside this development (numbers that are not exactly
  representable, string-to-number coercion in a comparison); the model stops there instead
  of inventing a value.
\<close>

datatype js_error = TypeError | InvalidLatLng | InvalidBounds | Unmodelled

text \<open>Truthiness, as used by \<^verbatim>\<open>||\<close>, \<^verbatim>\<open>&&\<close>, \<^verbatim>\<open>!\<close> and \<^verbatim>\<open>if\<close>.\<close>

fun truthy :: "json \<Rightarrow> bool" where
  "truthy JUndefined = False"
| "truthy JNull = False"
| "truthy (JBool b) = b"
| "truthy (JNum x) = (x \<noteq> 0)"
| "truthy (JStr s) = (s \<noteq> [])"
| "truthy (JArr xs) = True"
| "truthy (JObj kvs) = True"

text \<open>\<^verbatim>\<open>v || []\<close>\<close>

definition or_empty :: "json \<Rightarrow> json" where
  "or_empty v = (if truthy v then v else JArr [])"

text \<open>
  Property access \<^verbatim>\<open>v[k]\<close> / \<^verbatim>\<open>v.k\<close>.  On \<^verbatim>\<open>undefined\<close> and \<^verbatim>\<open>null\<close> it throws.
  Arrays and strings have the builtin property \<^verbatim>\<open>length\<close>; the other keys the component
  reads (\<^verbatim>\<open>bustime-response\<close>, \<^verbatim>\<open>routes\<close>, \<^verbatim>\<open>directions\<close>, \<^verbatim>\<open>stops\<close>, \<^verbatim>\<open>vehicle\<close>,
  \<^verbatim>\<open>prd\<close>, \<^verbatim>\<open>lat\<close>, \<^verbatim>\<open>lon\<close>) are not builtin properties of any primitive or array, so
  reading them from a non-object yields \<^verbatim>\<open>undefined\<close>.
\<close>

fun get_prop :: "json \<Rightarrow> string \<Rightarrow> js_error + json" where
  "get_prop JUndefined k = Inl TypeError"
| "get_prop JNull k = Inl TypeError"
| "get_prop (JObj kvs) k = Inr (case map_of kvs k of Some v \<Rightarrow> v | None \<Rightarrow> JUndefined)"
| "get_prop (JArr xs) k = Inr (if k = ''length'' then JNum (real (length xs)) else JUndefined)"
| "get_prop (JStr s) k = Inr (if k = ''length'' then JNum (real (length s)) else JUndefined)"
| "get_prop (JBool b) k = Inr JUndefined"
| "get_prop (JNum x) k = Inr JUndefined"

text \<open>Optional chaining \<^verbatim>\<open>v?.[k]\<close>: \<^verbatim>\<open>undefined\<close> instead of an exception.\<close>

definition get_prop_opt :: "json \<Rightarrow> string \<Rightarrow> json" where
  "get_prop_opt v k = (case get_prop v k of Inl e \<Rightarrow> JUndefined | Inr x \<Rightarrow> x)"

text \<open>\<^verbatim>\<open>Array.isArray\<close>\<close>

fun isArray :: "json \<Rightarrow> bool" where
  "isArray (JArr xs) = True"
| "isArray v = False"

subsection \<open>Strings\<close>

text \<open>
  \<^verbatim>\<open>s.split(c)\<close> for a one-character separator: every occurrence of the separator cuts,
  and the result always has at least one element.
\<close>

fun split_chr :: "char \<Rightarrow> string \<Rightarrow> string list" where
  "split_chr c [] = [[]]"
| "split_chr c (x # xs) =
     (if x = c then [] # split_chr c xs
      else (case split_chr c xs of y # ys \<Rightarrow> (x # y) # ys | [] \<Rightarrow> [[x]]))"

text \<open>Array destructuring \<^verbatim>\<open>const [a, b] = xs\<close>: a missing element is \<^verbatim>\<open>undefined\<close>.\<close>

definition elem0 :: "'a list \<Rightarrow> 'a option" where
  "elem0 xs = (case xs of [] \<Rightarrow> None | a # _ \<Rightarrow> Some a)"

definition elem1 :: "'a list \<Rightarrow> 'a option" where
  "elem1 xs = (case xs of a # b # _ \<Rightarrow> Some b | _ \<Rightarrow> None)"

text \<open>
  \<^verbatim>\<open>parseInt(s)\<close> without a radix: leading white space is skipped, a sign is read, a
  \<^verbatim>\<open>0x\<close>/\<^verbatim>\<open>0X\<close> prefix selects radix 16, and the longest prefix of digits is converted;
  no digit at all gives \<^verbatim>\<open>NaN\<close>.  JavaScript numbers are doubles: above \<open>2^53 = 9007199254740992\<close> the
  result is rounded, which this model does not follow (\<open>Inexact\<close>).
\<close>

datatype js_int = NaN | Num int | Inexact

text \<open>White space and line terminators, as far as they are single bytes.\<close>

definition is_space :: "char \<Rightarrow> bool" where
  "is_space c = (c \<in> set [CHR '' '', CHR 0x09, CHR 0x0A, CHR 0x0B, CHR 0x0C, CHR 0x0D])"

definition digit_val :: "char \<Rightarrow> nat option" where
  "digit_val c = (let n = (of_char c :: nat) in
     if 48 \<le> n \<and> n \<le> 57 then Some (n - 48)
     else if 97 \<le> n \<and> n \<le> 122 then Some (n - 87)
     else if 65 \<le> n \<and> n \<le> 90 then Some (n - 55)
     else None)"

definition is_digit :: "nat \<Rightarrow> char \<Rightarrow> bool" where
  "is_digit radix c = (case digit_val c of None \<Rightarrow> False | Some d \<Rightarrow> d < radix)"

definition digits_value :: "nat \<Rightarrow> string \<Rightarrow> int" where
  "digits_value radix ds = foldl (\<lambda>acc c. acc * int radix + int (the (digit_val c))) 0 ds"

definition has_hex_prefix :: "string \<Rightarrow> bool" where
  "has_hex_prefix s = (take 2 s = ''0x'' \<or> take 2 s = ''0X'')"

definition parseInt :: "string \<Rightarrow> js_int" where
  "parseInt s =
     (let s1 = dropWhile is_space s;
          neg = (take 1 s1 = ''-'');
          s2 = (if take 1 s1 = ''-'' \<or> take 1 s1 = ''+'' then drop 1 s1 else s1);
          radix = (if has_hex_prefix s2 then 16 else 10);
          s3 = (if has_hex_prefix s2 then drop 2 s2 else s2);
          ds = takeWhile (is_digit radix) s3;
          n = digits_value radix ds
      in if ds = [] then NaN
         else if n > 9007199254740992 then Inexact
         else Num (if neg then - n else n))"

text \<open>The remainder operator \<^verbatim>\<open>a % b\<close> on integers: the sign follows the dividend.\<close>

definition js_rem :: "int \<Rightarrow> int \<Rightarrow> int" where
  "js_rem a b = sgn a * (\<bar>a\<bar> mod \<bar>b\<bar>)"

text \<open>Number to string, as a template literal does it, for integers.\<close>

fun show_nat :: "nat \<Rightarrow> string" where
  "show_nat n =
     (if n < 10 then [''0123456789'' ! n]
      else show_nat (n div 10) @ [''0123456789'' ! (n mod 10)])"

declare show_nat.simps [simp del]

definition show_int :: "int \<Rightarrow> string" where
  "show_int i = (if i < 0 then CHR ''-'' # show_nat (nat (- i)) else show_nat (nat i))"

section \<open>formatTime\<close>

text \<open>
  \<^verbatim>\<open>
  const formatTime = (timestamp) => {
    const [_, time] = timestamp.split(' ');
    const [hour, minute] = time.split(':');
    const h = parseInt(hour);
    const suffix = h >= 12 ? 'PM' : 'AM';
    const formattedHour = h % 12 === 0 ? 12 : h % 12;
    return `${formattedHour}:${minute} ${suffix}`;
  };
  \<close>
  A timestamp without a space leaves \<^verbatim>\<open>time\<close> undefined and \<^verbatim>\<open>time.split\<close> throws.  A
  time without a colon leaves \<^verbatim>\<open>minute\<close> undefined, which the template prints as
  \<^verbatim>\<open>undefined\<close>.  With \<^verbatim>\<open>h = NaN\<close> both comparisons are false.
\<close>

definition formatTime :: "string \<Rightarrow> js_error + string" where
  "formatTime timestamp =
     (case elem1 (split_chr CHR '' '' timestamp) of
        None \<Rightarrow> Inl TypeError
      | Some time \<Rightarrow>
          (let parts = split_chr CHR '':'' time;
               hour = (case elem0 parts of Some x \<Rightarrow> x | None \<Rightarrow> []);
               minute = (case elem1 parts of Some m \<Rightarrow> m | None \<Rightarrow> ''undefined'')
           in case parseInt hour of
                Inexact \<Rightarrow> Inl Unmodelled
              | NaN \<Rightarrow> Inr (''NaN'' @ '':'' @ minute @ '' '' @ ''AM'')
              | Num h \<Rightarrow>
                  (let suffix = (if h \<ge> 12 then ''PM'' else ''AM'');
                       formattedHour = (if js_rem h 12 = 0 then 12 else js_rem h 12)
                   in Inr (show_int formattedHour @ '':'' @ minute @ '' '' @ suffix))))"


text \<open>A decimal digit; used to describe the hour field of a well-formed timestamp.\<close>

definition is_dec :: "char \<Rightarrow> bool" where
  "is_dec c = (c \<in> set ''0123456789'')"

section \<open>The state of BusView\<close>

text \<open>
  One field per \<^verbatim>\<open>useState\<close> hook, with the hook's initial value.  The three selections
  are the \<^verbatim>\<open>value\<close> of a \<^verbatim>\<open>select\<close> element and therefore strings; the empty string is
  the placeholder option and is falsy.  The fetched collections hold whatever the response
  handler stored, which for all but \<^verbatim>\<open>routes\<close> need not be an array.
\<close>

record latlon =
  lat :: real
  lon :: real

record bus_state =
  routes :: json
  selectedRoute :: string
  directions :: json
  direction :: string
  stops :: json
  selectedStop :: string
  predictions :: json
  vehicles :: json
  predictionAttempted :: bool
  userLocation :: "latlon option"
  stopsLoaded :: bool

definition initial_state :: bus_state where
  "initial_state =
     \<lparr> routes = JArr [], selectedRoute = [], directions = JArr [], direction = [],
       stops = JArr [], selectedStop = [], predictions = JArr [], vehicles = JArr [],
       predictionAttempted = False, userLocation = None, stopsLoaded = False \<rparr>"

subsection \<open>Requests in flight\<close>

text \<open>
  A request is identified by its endpoint and the query parameters that were interpolated
  into the URL when \<^verbatim>\<open>axios.get\<close> was called.  The promise either rejects (transport
  error, non-2xx status) or resolves with a response whose \<^verbatim>\<open>data\<close> is the parsed body.
\<close>

datatype request =
    GetRoutes
  | GetDirections string
  | GetStops string string
  | GetVehicles string
  | GetPredictions string string

datatype outcome = Rejected | Resolved json

record world =
  st :: bus_state
  pending :: "request list"
  geoPending :: bool

text \<open>
  A promise chain \<^verbatim>\<open>p.then(f).catch(g)\<close>: \<^verbatim>\<open>g\<close> runs when \<^verbatim>\<open>p\<close> rejects and also when
  \<^verbatim>\<open>f\<close> throws.  \<open>Inl\<close> as the result of the chain is a rejection that nothing handles.
\<close>

definition then_catch ::
  "outcome \<Rightarrow> (json \<Rightarrow> js_error + 's) \<Rightarrow> (js_error + 's) \<Rightarrow> js_error + 's" where
  "then_catch out on_resolve on_reject =
     (case out of
        Rejected \<Rightarrow> on_reject
      | Resolved d \<Rightarrow> (case on_resolve d of Inl e \<Rightarrow> on_reject | Inr s \<Rightarrow> Inr s))"

text \<open>\<^verbatim>\<open>res.data['bustime-response'].field\<close>\<close>

definition payload :: "string \<Rightarrow> json \<Rightarrow> js_error + json" where
  "payload field d =
     (case get_prop d ''bustime-response'' of
        Inl e \<Rightarrow> Inl e
      | Inr env \<Rightarrow> get_prop env field)"

subsection \<open>Response handlers\<close>

text \<open>
  \<^verbatim>\<open>
  .then(res => {
    const data = res.data?.['bustime-response']?.routes;
    if (Array.isArray(data)) { setRoutes(data); } else { setRoutes([]); }
  })
  .catch(err => { console.error(...); setRoutes([]); });
  \<close>
\<close>

definition on_routes :: "outcome \<Rightarrow> bus_state \<Rightarrow> js_error + bus_state" where
  "on_routes out s =
     then_catch out
       (\<lambda>d. let data = get_prop_opt (get_prop_opt d ''bustime-response'') ''routes''
            in if isArray data then Inr (s\<lparr>routes := data\<rparr>)
               else Inr (s\<lparr>routes := JArr []\<rparr>))
       (Inr (s\<lparr>routes := JArr []\<rparr>))"

text \<open>
  \<^verbatim>\<open>
  .then(res => {
    setDirections(res.data['bustime-response'].directions || []);
    setDirection(''); setStops([]); setSelectedStop('');
    setPredictions([]); setPredictionAttempted(false); setVehicles([]);
  })
  .catch(err => { console.error(...); setDirections([]); });
  \<close>
  The only expression that can throw is the argument of the first setter, so a throwing
  handler has updated nothing.
\<close>

definition on_directions :: "outcome \<Rightarrow> bus_state \<Rightarrow> js_error + bus_state" where
  "on_directions out s =
     then_catch out
       (\<lambda>d. case payload ''directions'' d of
              Inl e \<Rightarrow> Inl e
            | Inr v \<Rightarrow> Inr (s\<lparr>directions := or_empty v, direction := [], stops := JArr [],
                             selectedStop := [], predictions := JArr [],
                             predictionAttempted := False, vehicles := JArr []\<rparr>))
       (Inr (s\<lparr>directions := JArr []\<rparr>))"

text \<open>
  \<^verbatim>\<open>
  .then(res => { setStops(res.data['bustime-response'].stops || []); setStopsLoaded(true); })
  .catch(err => { setStops([]); setStopsLoaded(true); });
  \<close>
\<close>

definition on_stops :: "outcome \<Rightarrow> bus_state \<Rightarrow> js_error + bus_state" where
  "on_stops out s =
     then_catch out
       (\<lambda>d. case payload ''stops'' d of
              Inl e \<Rightarrow> Inl e
            | Inr v \<Rightarrow> Inr (s\<lparr>stops := or_empty v, stopsLoaded := True\<rparr>))
       (Inr (s\<lparr>stops := JArr [], stopsLoaded := True\<rparr>))"

text \<open>
  \<^verbatim>\<open>
  .then(res => setVehicles(res.data['bustime-response'].vehicle || []))
  .catch(err => setVehicles([]));
  \<close>
\<close>

definition on_vehicles :: "outcome \<Rightarrow> bus_state \<Rightarrow> js_error + bus_state" where
  "on_vehicles out s =
     then_catch out
       (\<lambda>d. case payload ''vehicle'' d of
              Inl e \<Rightarrow> Inl e
            | Inr v \<Rightarrow> Inr (s\<lparr>vehicles := or_empty v\<rparr>))
       (Inr (s\<lparr>vehicles := JArr []\<rparr>))"

text \<open>
  \<^verbatim>\<open>
  .then(res => { setPredictions(res.data['bustime-response'].prd || []);
                 setPredictionAttempted(true); })
  .catch(err => console.error('Error fetching predictions:', err));
  \<close>
  The rejection handler only logs.
\<close>

definition on_predictions :: "outcome \<Rightarrow> bus_state \<Rightarrow> js_error + bus_state" where
  "on_predictions out s =
     then_catch out
       (\<lambda>d. case payload ''prd'' d of
              Inl e \<Rightarrow> Inl e
            | Inr v \<Rightarrow> Inr (s\<lparr>predictions := or_empty v, predictionAttempted := True\<rparr>))
       (Inr s)"

fun handle :: "request \<Rightarrow> outcome \<Rightarrow> bus_state \<Rightarrow> js_error + bus_state" where
  "handle GetRoutes out s = on_routes out s"
| "handle (GetDirections rt) out s = on_directions out s"
| "handle (GetStops rt dir) out s = on_stops out s"
| "handle (GetVehicles rt) out s = on_vehicles out s"
| "handle (GetPredictions stop rt) out s = on_predictions out s"

subsection \<open>Effects\<close>

text \<open>
  An effect with a dependency list runs after a render in which one of its dependencies
  differs from the previous render.  \<open>prev\<close> is the state of the previous render, the
  world holds the state just rendered.
  \<^verbatim>\<open>
  useEffect(() => {
    if (selectedRoute) {
      axios.get(`${backend}/cta/bus/directions?rt=${selectedRoute}`).then(...).catch(...);
    }
  }, [selectedRoute]);
  \<close>
\<close>

definition effect_route :: "bus_state \<Rightarrow> world \<Rightarrow> world" where
  "effect_route prev w =
     (if selectedRoute (st w) \<noteq> selectedRoute prev \<and> selectedRoute (st w) \<noteq> []
      then w\<lparr>pending := pending w @ [GetDirections (selectedRoute (st w))]\<rparr>
      else w)"

text \<open>
  \<^verbatim>\<open>
  useEffect(() => {
    if (selectedRoute && direction) {
      setStopsLoaded(false);
      axios.get(`.../cta/bus/stops?rt=${selectedRoute}&direction=${direction}`)...
      axios.get(`.../cta/bus/vehicles?rt=${selectedRoute}`)...
      setSelectedStop(''); setPredictions([]); setPredictionAttempted(false);
    }
  }, [selectedRoute, direction]);
  \<close>
  The setters called here touch no dependency of either effect, so the render they cause
  runs no further effect.
\<close>

definition effect_route_direction :: "bus_state \<Rightarrow> world \<Rightarrow> world" where
  "effect_route_direction prev w =
     (let s = st w in
      if (selectedRoute s \<noteq> selectedRoute prev \<or> direction s \<noteq> direction prev)
         \<and> selectedRoute s \<noteq> [] \<and> direction s \<noteq> []
      then w\<lparr>st := s\<lparr>stopsLoaded := False, selectedStop := [], predictions := JArr [],
                      predictionAttempted := False\<rparr>,
             pending := pending w @ [GetStops (selectedRoute s) (direction s),
                                     GetVehicles (selectedRoute s)]\<rparr>
      else w)"

text \<open>Both effects read the values of the same render; they run in declaration order.\<close>

definition run_effects :: "bus_state \<Rightarrow> world \<Rightarrow> world" where
  "run_effects prev w = effect_route_direction prev (effect_route prev w)"

subsection \<open>Event handlers\<close>

text \<open>
  \<^verbatim>\<open>
  const getPredictions = () => {
    if (selectedStop) {
      axios.get(`.../cta/bus/predictions?stop_id=${selectedStop}&rt=${selectedRoute}`)...
    }
  };
  \<close>
\<close>

definition getPredictions :: "world \<Rightarrow> world" where
  "getPredictions w =
     (if selectedStop (st w) \<noteq> []
      then w\<lparr>pending := pending w @ [GetPredictions (selectedStop (st w)) (selectedRoute (st w))]\<rparr>
      else w)"

text \<open>
  \<^verbatim>\<open>
  const resetApp = () => {
    setSelectedRoute(''); setDirections([]); setDirection(''); setStops([]);
    setSelectedStop(''); setPredictions([]); setVehicles([]);
    setPredictionAttempted(false); setUserLocation(null); setStopsLoaded(false);
  };
  \<close>
  The setters of one event handler are applied together, in one render.
\<close>

definition resetApp :: "bus_state \<Rightarrow> bus_state" where
  "resetApp s =
     s\<lparr>selectedRoute := [], directions := JArr [], direction := [], stops := JArr [],
       selectedStop := [], predictions := JArr [], vehicles := JArr [],
       predictionAttempted := False, userLocation := None, stopsLoaded := False\<rparr>"

text \<open>
  What can happen to the mounted component: the three \<^verbatim>\<open>onChange\<close> handlers, the two
  buttons, the completion of the request at a position of the list of requests in flight,
  and the two callbacks of \<^verbatim>\<open>getCurrentPosition\<close>.
\<close>

datatype event =
    SelectRoute string
  | SelectDirection string
  | SelectStop string
  | ClickGetPredictions
  | ClickReset
  | Deliver nat outcome
  | GeoSuccess real real
  | GeoError

fun step :: "world \<Rightarrow> event \<Rightarrow> world" where
  "step w (SelectRoute v) = run_effects (st w) (w\<lparr>st := (st w)\<lparr>selectedRoute := v\<rparr>\<rparr>)"
| "step w (SelectDirection v) = run_effects (st w) (w\<lparr>st := (st w)\<lparr>direction := v\<rparr>\<rparr>)"
| "step w (SelectStop v) = run_effects (st w) (w\<lparr>st := (st w)\<lparr>selectedStop := v\<rparr>\<rparr>)"
| "step w ClickGetPredictions = getPredictions w"
| "step w ClickReset = run_effects (st w) (w\<lparr>st := resetApp (st w)\<rparr>)"
| "step w (Deliver i out) =
     (if i < length (pending w)
      then (case handle (pending w ! i) out (st w) of
              Inl e \<Rightarrow> w\<lparr>pending := take i (pending w) @ drop (Suc i) (pending w)\<rparr>
            | Inr s \<Rightarrow> run_effects (st w)
                        (w\<lparr>st := s, pending := take i (pending w) @ drop (Suc i) (pending w)\<rparr>))
      else w)"
| "step w (GeoSuccess la lo) =
     (if geoPending w
      then w\<lparr>st := (st w)\<lparr>userLocation := Some \<lparr>lat = la, lon = lo\<rparr>\<rparr>, geoPending := False\<rparr>
      else w)"
| "step w GeoError =
     (if geoPending w
      then w\<lparr>st := (st w)\<lparr>userLocation := Some \<lparr>lat = 41.8781, lon = -87.6298\<rparr>\<rparr>,
             geoPending := False\<rparr>
      else w)"

text \<open>
  Mounting runs the two effects with an empty dependency list: the position request and
  the routes request.  The other two effects see empty selections and do nothing.
\<close>

definition mount :: world where
  "mount = \<lparr> st = initial_state, pending = [GetRoutes], geoPending = True \<rparr>"

definition run :: "world \<Rightarrow> event list \<Rightarrow> world" where
  "run w es = foldl step w es"


section \<open>What is rendered below the direction selector\<close>

text \<open>
  \<^verbatim>\<open>
  {direction && (
    <div>
      {stops.length > 0 ? ( <> ...stop selector and Get Predictions button... </> )
                        : ( stopsLoaded && ( <div>No stop data available ...</div> ) )}
    </div>
  )}
  \<close>
  Only the choice of the branch is modelled, not the markup inside it.  \<^verbatim>\<open>x > 0\<close>
  converts \<^verbatim>\<open>x\<close> to a number: \<^verbatim>\<open>undefined\<close> becomes \<^verbatim>\<open>NaN\<close>, \<^verbatim>\<open>null\<close> becomes 0,
  \<^verbatim>\<open>true\<close> becomes 1.
\<close>

datatype stops_view = NoSection | StopSelector | NoStopDataMessage | EmptySection

fun js_gt_zero :: "json \<Rightarrow> js_error + bool" where
  "js_gt_zero (JNum x) = Inr (x > 0)"
| "js_gt_zero JUndefined = Inr False"
| "js_gt_zero JNull = Inr False"
| "js_gt_zero (JBool b) = Inr b"
| "js_gt_zero (JStr s) = Inl Unmodelled"
| "js_gt_zero (JArr xs) = Inl Unmodelled"
| "js_gt_zero (JObj kvs) = Inl Unmodelled"

definition length_gt_zero :: "json \<Rightarrow> js_error + bool" where
  "length_gt_zero v =
     (case get_prop v ''length'' of Inl e \<Rightarrow> Inl e | Inr n \<Rightarrow> js_gt_zero n)"

definition render_stops :: "bus_state \<Rightarrow> js_error + stops_view" where
  "render_stops s =
     (if direction s = [] then Inr NoSection
      else (case length_gt_zero (stops s) of
              Inl e \<Rightarrow> Inl e
            | Inr True \<Rightarrow> Inr StopSelector
            | Inr False \<Rightarrow> Inr (if stopsLoaded s then NoStopDataMessage else EmptySection)))"

section \<open>FitBounds\<close>

subsection \<open>parseFloat\<close>

text \<open>
  \<^verbatim>\<open>parseFloat(v)\<close> converts its argument to a string, skips leading white space, reads a
  sign and converts the longest prefix that is a decimal literal: digits, optionally a
  point and more digits, optionally an exponent; or \<^verbatim>\<open>Infinity\<close>.  Without such a prefix
  the result is \<^verbatim>\<open>NaN\<close>.  The result is the double nearest to the decimal; rounding keeps
  the order of the values, and the model keeps the decimal itself.  A decimal at or above
  \<open>2^1024 - 2^970\<close> rounds to \<^verbatim>\<open>Infinity\<close>.
\<close>

datatype js_num = NotANumber | Finite real | PosInfinity | NegInfinity

definition exponent_of :: "string \<Rightarrow> int" where
  "exponent_of s =
     (if take 1 s = ''e'' \<or> take 1 s = ''E''
      then (let r = drop 1 s;
                neg = (take 1 r = ''-'');
                r' = (if take 1 r = ''-'' \<or> take 1 r = ''+'' then drop 1 r else r);
                ds = takeWhile (is_digit 10) r'
            in if ds = [] then 0
               else if neg then - digits_value 10 ds else digits_value 10 ds)
      else 0)"

definition scale10 :: "int \<Rightarrow> int \<Rightarrow> real" where
  "scale10 n k =
     (if k \<ge> 0 then real_of_int n * 10 ^ nat k else real_of_int n / 10 ^ nat (- k))"

definition overflow_bound :: real where
  "overflow_bound = 2 ^ 1024 - 2 ^ 970"

definition decimal_literal :: "string \<Rightarrow> js_num" where
  "decimal_literal s =
     (if take 8 s = ''Infinity'' then PosInfinity
      else (let ip = takeWhile (is_digit 10) s;
                r1 = dropWhile (is_digit 10) s;
                dot = (take 1 r1 = ''.'');
                fp = (if dot then takeWhile (is_digit 10) (drop 1 r1) else []);
                r2 = (if dot then dropWhile (is_digit 10) (drop 1 r1) else r1);
                v = scale10 (digits_value 10 (ip @ fp)) (exponent_of r2 - int (length fp))
            in if ip = [] \<and> fp = [] then NotANumber
               else if v \<ge> overflow_bound then PosInfinity
               else Finite v))"

definition parse_float_string :: "string \<Rightarrow> js_num" where
  "parse_float_string s =
     (let s1 = dropWhile is_space s;
          neg = (take 1 s1 = ''-'');
          s2 = (if take 1 s1 = ''-'' \<or> take 1 s1 = ''+'' then drop 1 s1 else s1)
      in case decimal_literal s2 of
           NotANumber \<Rightarrow> NotANumber
         | Finite v \<Rightarrow> Finite (if neg then - v else v)
         | PosInfinity \<Rightarrow> (if neg then NegInfinity else PosInfinity)
         | NegInfinity \<Rightarrow> NegInfinity)"

text \<open>
  The string of a number reads back as that number.  The string of an array is the strings
  of its elements joined by commas, and a comma ends every literal, so an array parses as
  its first element does; \<^verbatim>\<open>null\<close>, \<^verbatim>\<open>undefined\<close>, a boolean and an object have strings
  that start with no literal.
\<close>

fun parseFloat :: "json \<Rightarrow> js_num" where
  "parseFloat (JStr s) = parse_float_string s"
| "parseFloat (JNum x) = Finite x"
| "parseFloat (JArr []) = NotANumber"
| "parseFloat (JArr (x # xs)) = parseFloat x"
| "parseFloat JUndefined = NotANumber"
| "parseFloat JNull = NotANumber"
| "parseFloat (JBool b) = NotANumber"
| "parseFloat (JObj kvs) = NotANumber"

subsection \<open>The bounding box\<close>

text \<open>
  Modelled from the spec: \<^verbatim>\<open>L.latLngBounds\<close> and \<^verbatim>\<open>map.fitBounds\<close> belong to the Leaflet
  library, whose code is not among the sources.  The specification describes the box as
  the smallest axis-aligned box covering every coordinate handed over, expanded by a fixed
  visual padding margin.  \<open>covering_box\<close> is that smallest box and \<open>expand\<close> widens a box
  by a margin on each side.  A coordinate has to be a number: the library raises an error
  for a point with a \<^verbatim>\<open>NaN\<close> coordinate, and \<open>latLngBounds\<close> does so whenever the list
  holds one.  Infinite coordinates are outside this development.  For an empty list of
  points there is no box, and fitting raises an error.
\<close>

record 'n bounds =
  south :: 'n
  west :: 'n
  north :: 'n
  east :: 'n

definition extend_bounds :: "'n::linorder bounds \<Rightarrow> 'n \<times> 'n \<Rightarrow> 'n bounds" where
  "extend_bounds b p =
     \<lparr> south = min (fst p) (south b), west = min (snd p) (west b),
       north = max (fst p) (north b), east = max (snd p) (east b) \<rparr>"

fun covering_box :: "('n::linorder \<times> 'n) list \<Rightarrow> 'n bounds option" where
  "covering_box [] = None"
| "covering_box (p # ps) =
     Some (foldl extend_bounds \<lparr> south = fst p, west = snd p, north = fst p, east = snd p \<rparr> ps)"

definition covers :: "'n::linorder bounds \<Rightarrow> 'n \<times> 'n \<Rightarrow> bool" where
  "covers b p = (south b \<le> fst p \<and> fst p \<le> north b \<and> west b \<le> snd p \<and> snd p \<le> east b)"

definition inside :: "'n::linorder bounds \<Rightarrow> 'n bounds \<Rightarrow> bool" where
  "inside b b' = (south b' \<le> south b \<and> north b \<le> north b' \<and> west b' \<le> west b \<and> east b \<le> east b')"

fun finite_point :: "js_num \<times> js_num \<Rightarrow> (real \<times> real) option" where
  "finite_point (Finite a, Finite b) = Some (a, b)"
| "finite_point p = None"

definition has_nan :: "js_num \<times> js_num \<Rightarrow> bool" where
  "has_nan p = (fst p = NotANumber \<or> snd p = NotANumber)"

definition latLngBounds :: "(js_num \<times> js_num) list \<Rightarrow> js_error + real bounds option" where
  "latLngBounds pts =
     (if list_ex has_nan pts then Inl InvalidLatLng
      else (case those (map finite_point pts) of
              None \<Rightarrow> Inl Unmodelled
            | Some ps \<Rightarrow> Inr (covering_box ps)))"

definition expand :: "real \<times> real \<Rightarrow> real bounds \<Rightarrow> real bounds" where
  "expand m b =
     \<lparr> south = south b - snd m, west = west b - fst m,
       north = north b + snd m, east = east b + fst m \<rparr>"

subsection \<open>The component\<close>

text \<open>
  \<^verbatim>\<open>
  function FitBounds({ buses, userLocation }) {
    const map = useMap();
    useEffect(() => {
      if (!map || buses.length === 0 || !userLocation) return;
      const bounds = L.latLngBounds([
        ...buses.map(bus => [parseFloat(bus.lat), parseFloat(bus.lon)]),
        [parseFloat(userLocation.lat), parseFloat(userLocation.lon)]
      ]);
      map.fitBounds(bounds, { padding: [50, 50] });
    }, [buses, userLocation, map]);
    return null;
  }
  \<close>
  The effect returns early, or throws, or calls \<^verbatim>\<open>map.fitBounds\<close>; its result here is
  \<open>None\<close> when no call is made, an error, or the arguments of the call.  \<^verbatim>\<open>useMap\<close> yields
  the map of the enclosing container and is never falsy.  The property \<^verbatim>\<open>userLocation\<close>
  is the argument \<open>location\<close>.
\<close>

record fit_call =
  fit_bounds :: "real bounds"
  fit_padding :: "nat \<times> nat"

fun bus_points :: "json list \<Rightarrow> js_error + (js_num \<times> js_num) list" where
  "bus_points [] = Inr []"
| "bus_points (bus # rest) =
     (case get_prop bus ''lat'' of
        Inl e \<Rightarrow> Inl e
      | Inr la \<Rightarrow>
          (case get_prop bus ''lon'' of
             Inl e \<Rightarrow> Inl e
           | Inr lo \<Rightarrow>
               (case bus_points rest of
                  Inl e \<Rightarrow> Inl e
                | Inr ps \<Rightarrow> Inr ((parseFloat la, parseFloat lo) # ps))))"

definition FitBounds :: "json \<Rightarrow> latlon option \<Rightarrow> js_error + fit_call option" where
  "FitBounds buses location =
     (case get_prop buses ''length'' of
        Inl e \<Rightarrow> Inl e
      | Inr n \<Rightarrow>
          (if n = JNum 0 then Inr None
           else (case location of
                   None \<Rightarrow> Inr None
                 | Some u \<Rightarrow>
                     (case buses of
                        JArr xs \<Rightarrow>
                          (case bus_points xs of
                             Inl e \<Rightarrow> Inl e
                           | Inr ps \<Rightarrow>
                               (case latLngBounds (ps @ [(parseFloat (JNum (lat u)),
                                                          parseFloat (JNum (lon u)))]) of
                                  Inl e \<Rightarrow> Inl e
                                | Inr None \<Rightarrow> Inl InvalidBounds
                                | Inr (Some b) \<Rightarrow>
                                    Inr (Some \<lparr> fit_bounds = b, fit_padding = (50, 50) \<rparr>)))
                      | _ \<Rightarrow> Inl TypeError))))"

text \<open>
  Modelled from the spec: the viewport fit as the specification describes it, a function
  of vehicles and user location whose value is the covering box expanded by the padding,
  or none when no viewport change is requested.  The padding handed to \<^verbatim>\<open>map.fitBounds\<close>
  is in screen pixels, horizontal and vertical; what a pixel amounts to in coordinates
  depends on the zoom the library settles on, so the size of a pixel, in degrees of
  longitude and of latitude, is the parameter \<open>pixel\<close>.
\<close>

definition fit :: "real \<times> real \<Rightarrow> json \<Rightarrow> latlon option \<Rightarrow> real bounds option" where
  "fit pixel buses location =
     (case FitBounds buses location of
        Inr (Some c) \<Rightarrow>
          Some (expand (fst pixel * real (fst (fit_padding c)),
                        snd pixel * real (snd (fit_padding c))) (fit_bounds c))
      | _ \<Rightarrow> None)"

section \<open>Vocabulary for the properties\<close>

text \<open>Kinds of request, for counting the fetches in flight.\<close>

fun is_stops_request :: "request \<Rightarrow> bool" where
  "is_stops_request (GetStops rt dir) = True"
| "is_stops_request r = False"

fun is_predictions_request :: "request \<Rightarrow> bool" where
  "is_predictions_request (GetPredictions stop rt) = True"
| "is_predictions_request r = False"

text \<open>
  A fetch that delivers no payload for \<open>field\<close>: the transport failed, or reading
  \<^verbatim>\<open>res.data['bustime-response'].field\<close> throws, or the value read is falsy (in particular
  \<^verbatim>\<open>undefined\<close>, when the envelope or the field is missing).
\<close>

definition no_payload :: "string \<Rightarrow> outcome \<Rightarrow> bool" where
  "no_payload field out =
     (case out of
        Rejected \<Rightarrow> True
      | Resolved d \<Rightarrow> (case payload field d of Inl e \<Rightarrow> True | Inr v \<Rightarrow> \<not> truthy v))"

text \<open>A fetch whose envelope cannot be read at all: transport failure or a throwing access.\<close>

definition no_envelope :: "string \<Rightarrow> outcome \<Rightarrow> bool" where
  "no_envelope field out =
     (case out of
        Rejected \<Rightarrow> True
      | Resolved d \<Rightarrow> (case payload field d of Inl e \<Rightarrow> True | Inr v \<Rightarrow> False))"

text \<open>A routes fetch that delivers no array.\<close>

definition no_routes_array :: "outcome \<Rightarrow> bool" where
  "no_routes_array out =
     (case out of
        Rejected \<Rightarrow> True
      | Resolved d \<Rightarrow> \<not> isArray (get_prop_opt (get_prop_opt d ''bustime-response'') ''routes''))"

subsection \<open>Sample responses and sessions\<close>

text \<open>A well-formed response body \<^verbatim>\<open>{ "bustime-response": { field: v } }\<close>.\<close>

definition envelope :: "string \<Rightarrow> json \<Rightarrow> json" where
  "envelope field v = JObj [(''bustime-response'', JObj [(field, v)])]"

definition routes_example :: json where
  "routes_example = JArr [JObj [(''rt'', JStr ''22''), (''rtn'', JStr ''Clark'')],
                          JObj [(''rt'', JStr ''66''), (''rtn'', JStr ''Chicago'')]]"

definition directions_22 :: json where
  "directions_22 =
     JArr [JObj [(''dir'', JStr ''Northbound'')], JObj [(''dir'', JStr ''Southbound'')]]"

definition directions_66 :: json where
  "directions_66 =
     JArr [JObj [(''dir'', JStr ''Eastbound'')], JObj [(''dir'', JStr ''Westbound'')]]"

definition stops_22_north :: json where
  "stops_22_north = JArr [JObj [(''stpid'', JStr ''1''), (''stpnm'', JStr ''Clark/Howard'')]]"

definition vehicles_22 :: json where
  "vehicles_22 = JArr [JObj [(''vid'', JStr ''101''), (''lat'', JStr ''41.9''),
                             (''lon'', JStr ''-87.6''), (''hdg'', JStr ''90'')]]"

definition predictions_22_1 :: json where
  "predictions_22_1 = JArr [JObj [(''rt'', JStr ''22''), (''rtdir'', JStr ''Northbound''),
                                  (''prdtm'', JStr ''12/25 14:10'')]]"

text \<open>
  The routes arrive; the rider picks route 22 and, before its directions arrive, route 66;
  the directions of route 66 arrive first.  The request for route 22 is still in flight.
\<close>

definition two_routes_trace :: "event list" where
  "two_routes_trace =
     [Deliver 0 (Resolved (envelope ''routes'' routes_example)),
      SelectRoute ''22'',
      SelectRoute ''66'',
      Deliver 1 (Resolved (envelope ''directions'' directions_66))]"

text \<open>The rider picks route 22 and direction Northbound; every response has arrived.\<close>

definition browsing_trace :: "event list" where
  "browsing_trace =
     [Deliver 0 (Resolved (envelope ''routes'' routes_example)),
      SelectRoute ''22'',
      Deliver 0 (Resolved (envelope ''directions'' directions_22)),
      SelectDirection ''Northbound'',
      Deliver 0 (Resolved (envelope ''stops'' stops_22_north)),
      Deliver 0 (Resolved (envelope ''vehicle'' vehicles_22))]"

text \<open>The rider then picks stop 1 and obtains its predictions.\<close>

definition predicting_trace :: "event list" where
  "predicting_trace =
     browsing_trace @
     [SelectStop ''1'',
      ClickGetPredictions,
      Deliver 0 (Resolved (envelope ''prd'' predictions_22_1))]"

text \<open>
  The coordinates of a vehicle, when both can be read and parse to finite numbers.
\<close>

definition coordinates :: "json \<Rightarrow> (real \<times> real) option" where
  "coordinates bus =
     (case get_prop bus ''lat'' of
        Inl e \<Rightarrow> None
      | Inr la \<Rightarrow>
          (case get_prop bus ''lon'' of
             Inl e \<Rightarrow> None
           | Inr lo \<Rightarrow> finite_point (parseFloat la, parseFloat lo)))"

text \<open>Two vehicles of route 22, with coordinates as strings.\<close>

definition two_vehicles :: "json list" where
  "two_vehicles =
     [JObj [(''vid'', JStr ''101''), (''lat'', JStr ''41.9''), (''lon'', JStr ''-87.6''),
            (''hdg'', JStr ''90'')],
      JObj [(''vid'', JStr ''102''), (''lat'', JStr ''41.95''), (''lon'', JStr ''-87.7''),
            (''hdg'', JStr ''270'')]]"

text \<open>Later predictions for the same stop.\<close>

definition predictions_22_2 :: json where
  "predictions_22_2 = JArr [JObj [(''rt'', JStr ''22''), (''rtdir'', JStr ''Northbound''),
                                  (''prdtm'', JStr ''12/25 14:25'')]]"

section \<open>Facts about the model\<close>

subsection \<open>Effects\<close>

text \<open>
  The effects fire only when a dependency changed and both selections are non-empty;
  otherwise the world is left as it is.  They never touch the route, the direction or a
  fetched collection other than \<^verbatim>\<open>predictions\<close>.
\<close>

lemma effect_route_st [simp]: "st (effect_route prev w) = st w"
  by (simp add: effect_route_def)

lemma effect_route_geo [simp]: "geoPending (effect_route prev w) = geoPending w"
  by (simp add: effect_route_def)

lemma run_effects_idle:
  "selectedRoute (st w) = selectedRoute prev \<Longrightarrow> direction (st w) = direction prev \<Longrightarrow>
   run_effects prev w = w"
  by (simp add: run_effects_def effect_route_def effect_route_direction_def Let_def)

lemma run_effects_no_route:
  "selectedRoute (st w) = [] \<Longrightarrow> run_effects prev w = w"
  by (simp add: run_effects_def effect_route_def effect_route_direction_def Let_def)


lemma run_effects_kept:
  "routes (st (run_effects prev w)) = routes (st w)"
  "selectedRoute (st (run_effects prev w)) = selectedRoute (st w)"
  "directions (st (run_effects prev w)) = directions (st w)"
  "direction (st (run_effects prev w)) = direction (st w)"
  "stops (st (run_effects prev w)) = stops (st w)"
  "vehicles (st (run_effects prev w)) = vehicles (st w)"
  "userLocation (st (run_effects prev w)) = userLocation (st w)"
  "geoPending (run_effects prev w) = geoPending w"
  by (simp_all add: run_effects_def effect_route_direction_def Let_def)

lemma run_effects_stopsLoaded:
  "stopsLoaded (st (run_effects prev w)) \<Longrightarrow> stopsLoaded (st w)"
  by (simp add: run_effects_def effect_route_direction_def Let_def split: if_splits)

lemma run_effects_stops_request:
  "length (filter is_stops_request (pending w)) < length (filter is_stops_request (pending (run_effects prev w)))
   \<Longrightarrow> \<not> stopsLoaded (st (run_effects prev w))"
  by (auto simp: run_effects_def effect_route_def effect_route_direction_def Let_def split: if_splits)

lemma run_effects_pending_predictions:
  "r \<in> set (pending (run_effects prev w)) \<Longrightarrow> is_predictions_request r \<Longrightarrow> r \<in> set (pending w)"
  by (auto simp: run_effects_def effect_route_def effect_route_direction_def Let_def split: if_splits)

subsection \<open>Handlers\<close>

lemma handle_directions_field:
  "\<exists>s'. on_directions out s = Inr s' \<and>
     directions s' = (case out of Rejected \<Rightarrow> JArr []
        | Resolved d \<Rightarrow> (case payload ''directions'' d of Inl e \<Rightarrow> JArr [] | Inr v \<Rightarrow> or_empty v))"
  by (simp add: on_directions_def then_catch_def split: outcome.splits sum.splits)

lemma on_stops_total: "\<exists>s'. on_stops out s = Inr s' \<and> selectedRoute s' = selectedRoute s \<and>
    direction s' = direction s \<and> vehicles s' = vehicles s \<and> stopsLoaded s'"
  by (auto simp: on_stops_def then_catch_def split: outcome.splits sum.splits)

lemma on_vehicles_total: "\<exists>s'. on_vehicles out s = Inr s' \<and> selectedRoute s' = selectedRoute s \<and>
    direction s' = direction s \<and> stops s' = stops s \<and> stopsLoaded s' = stopsLoaded s"
  by (auto simp: on_vehicles_def then_catch_def split: outcome.splits sum.splits)

lemma stops_vehicles_commute:
  "on_stops o1 s = Inr s1 \<Longrightarrow> on_vehicles o2 s = Inr s2 \<Longrightarrow> on_vehicles o2 s1 = on_stops o1 s2"
  by (auto simp: on_stops_def on_vehicles_def then_catch_def split: outcome.splits sum.splits)

lemma handle_stopsLoaded:
  "handle r out s = Inr s' \<Longrightarrow> stopsLoaded s' \<Longrightarrow> \<not> stopsLoaded s \<Longrightarrow> is_stops_request r"
  by (cases r)
     (auto simp: on_routes_def on_directions_def on_vehicles_def on_predictions_def then_catch_def
        Let_def split: outcome.splits sum.splits if_splits)

subsection \<open>Steps\<close>

lemma remove_nth_mem: "r \<in> set (take i xs @ drop (Suc i) xs) \<Longrightarrow> r \<in> set xs"
  by (auto dest: in_set_takeD in_set_dropD)

lemma filter_remove_nth_le:
  "length (filter P (take i xs @ drop (Suc i) xs)) \<le> length (filter P xs)"
proof -
  have "length (filter P (take i xs)) + length (filter P (drop i xs)) = length (filter P xs)"
    by (metis append_take_drop_id filter_append length_append)
  moreover have "length (filter P (drop (Suc i) xs)) \<le> length (filter P (drop i xs))"
  proof (cases "i < length xs")
    case True
    then have "drop i xs = xs ! i # drop (Suc i) xs" by (simp add: Cons_nth_drop_Suc)
    then show ?thesis by simp
  next
    case False
    then show ?thesis by simp
  qed
  ultimately show ?thesis by simp
qed

lemma select_direction_world:
  assumes "selectedRoute (st w) \<noteq> []" and "d \<noteq> []" and "d \<noteq> direction (st w)"
  shows "step w (SelectDirection d) =
     w\<lparr>st := (st w)\<lparr>direction := d, stopsLoaded := False, selectedStop := [],
                     predictions := JArr [], predictionAttempted := False\<rparr>,
       pending := pending w @ [GetStops (selectedRoute (st w)) d, GetVehicles (selectedRoute (st w))]\<rparr>"
  using assms by (simp add: run_effects_def effect_route_def effect_route_direction_def Let_def)

lemma step_no_new_predictions:
  assumes "e \<noteq> ClickGetPredictions" and "r \<in> set (pending (step w e))" and "is_predictions_request r"
  shows "r \<in> set (pending w)"
proof (cases e)
  case (SelectRoute v)
  then show ?thesis using assms(2,3) run_effects_pending_predictions by fastforce
next
  case (SelectDirection v)
  then show ?thesis using assms(2,3) run_effects_pending_predictions by fastforce
next
  case (SelectStop v)
  then show ?thesis using assms(2,3) run_effects_pending_predictions by fastforce
next
  case ClickGetPredictions
  then show ?thesis using assms(1) by simp
next
  case ClickReset
  then show ?thesis using assms(2,3) run_effects_pending_predictions by fastforce
next
  case (Deliver i out)
  show ?thesis
  proof (cases "i < length (pending w)")
    case True
    show ?thesis
    proof (cases "handle (pending w ! i) out (st w)")
      case (Inl err)
      then have "r \<in> set (take i (pending w) @ drop (Suc i) (pending w))"
        using assms(2) Deliver True by simp
      then show ?thesis by (rule remove_nth_mem)
    next
      case (Inr s)
      then have "r \<in> set (pending (run_effects (st w)
          (w\<lparr>st := s, pending := take i (pending w) @ drop (Suc i) (pending w)\<rparr>)))"
        using assms(2) Deliver True by simp
      then have "r \<in> set (take i (pending w) @ drop (Suc i) (pending w))"
        using run_effects_pending_predictions [OF _ assms(3)] by fastforce
      then show ?thesis by (rule remove_nth_mem)
    qed
  next
    case False
    then show ?thesis using assms(2) Deliver by simp
  qed
next
  case (GeoSuccess la lo)
  then show ?thesis using assms(2) by (simp split: if_splits)
next
  case GeoError
  then show ?thesis using assms(2) by (simp split: if_splits)
qed

lemma stops_fetch_start:
  assumes "length (filter is_stops_request (pending w))
             < length (filter is_stops_request (pending (step w e)))"
  shows "\<not> stopsLoaded (st (step w e))"
proof (cases e)
  case (SelectRoute v)
  then show ?thesis using assms run_effects_stops_request [of "w\<lparr>st := (st w)\<lparr>selectedRoute := v\<rparr>\<rparr>" "st w"] by simp
next
  case (SelectDirection v)
  then show ?thesis using assms run_effects_stops_request [of "w\<lparr>st := (st w)\<lparr>direction := v\<rparr>\<rparr>" "st w"] by simp
next
  case (SelectStop v)
  then show ?thesis using assms run_effects_stops_request [of "w\<lparr>st := (st w)\<lparr>selectedStop := v\<rparr>\<rparr>" "st w"] by simp
next
  case ClickGetPredictions
  then show ?thesis using assms by (simp add: getPredictions_def split: if_splits)
next
  case ClickReset
  then show ?thesis using assms run_effects_stops_request [of "w\<lparr>st := resetApp (st w)\<rparr>" "st w"] by simp
next
  case (Deliver i out)
  show ?thesis
  proof (cases "i < length (pending w)")
    case True
    let ?rest = "take i (pending w) @ drop (Suc i) (pending w)"
    have le: "length (filter is_stops_request ?rest) \<le> length (filter is_stops_request (pending w))"
      by (rule filter_remove_nth_le)
    show ?thesis
    proof (cases "handle (pending w ! i) out (st w)")
      case (Inl err)
      then have "pending (step w e) = ?rest" using Deliver True by simp
      then show ?thesis using assms le by simp
    next
      case (Inr s)
      then have eq: "step w e = run_effects (st w) (w\<lparr>st := s, pending := ?rest\<rparr>)"
        using Deliver True by simp
      have "length (filter is_stops_request (pending (w\<lparr>st := s, pending := ?rest\<rparr>)))
          < length (filter is_stops_request (pending (run_effects (st w) (w\<lparr>st := s, pending := ?rest\<rparr>))))"
        using assms le unfolding eq by simp
      then show ?thesis unfolding eq by (rule run_effects_stops_request)
    qed
  next
    case False
    then show ?thesis using assms Deliver by simp
  qed
next
  case (GeoSuccess la lo)
  then show ?thesis using assms by (simp split: if_splits)
next
  case GeoError
  then show ?thesis using assms by (simp split: if_splits)
qed

lemma stops_loaded_only_on_completion:
  assumes "\<not> stopsLoaded (st w)" and "stopsLoaded (st (step w e))"
  shows "\<exists>i out rt dir. e = Deliver i out \<and> i < length (pending w) \<and> pending w ! i = GetStops rt dir"
proof (cases e)
  case (SelectRoute v)
  then show ?thesis using assms run_effects_stopsLoaded by fastforce
next
  case (SelectDirection v)
  then show ?thesis using assms run_effects_stopsLoaded by fastforce
next
  case (SelectStop v)
  then show ?thesis using assms run_effects_stopsLoaded by fastforce
next
  case ClickGetPredictions
  then show ?thesis using assms by (simp add: getPredictions_def split: if_splits)
next
  case ClickReset
  then have "stopsLoaded (st (w\<lparr>st := resetApp (st w)\<rparr>))"
    using assms(2) run_effects_stopsLoaded by fastforce
  then show ?thesis by (simp add: resetApp_def)
next
  case (Deliver i out)
  show ?thesis
  proof (cases "i < length (pending w)")
    case True
    show ?thesis
    proof (cases "handle (pending w ! i) out (st w)")
      case (Inl err)
      then show ?thesis using assms Deliver True by simp
    next
      case (Inr s)
      then have "stopsLoaded (st (run_effects (st w)
          (w\<lparr>st := s, pending := take i (pending w) @ drop (Suc i) (pending w)\<rparr>)))"
        using assms(2) Deliver True by simp
      then have "stopsLoaded s" using run_effects_stopsLoaded by fastforce
      then have "is_stops_request (pending w ! i)"
        using handle_stopsLoaded [OF Inr] assms(1) by blast
      then obtain rt dir where "pending w ! i = GetStops rt dir"
        by (cases "pending w ! i") auto
      then show ?thesis using Deliver True by blast
    qed
  next
    case False
    then show ?thesis using assms Deliver by simp
  qed
next
  case (GeoSuccess la lo)
  then show ?thesis using assms by (simp split: if_splits)
next
  case GeoError
  then show ?thesis using assms by (simp split: if_splits)
qed

lemma stops_completion_sets_flag:
  assumes "i < length (pending w)" and "pending w ! i = GetStops rt dir"
  shows "stopsLoaded (st (step w (Deliver i out)))"
proof -
  obtain s' where s': "on_stops out (st w) = Inr s'" "selectedRoute s' = selectedRoute (st w)"
     "direction s' = direction (st w)" "stopsLoaded s'"
    using on_stops_total by blast
  then show ?thesis using assms by (simp add: run_effects_idle)
qed

subsection \<open>The sample sessions\<close>

text \<open>
  The worlds reached by the sample sessions, computed by unfolding the model.
\<close>

lemmas ex_defs = envelope_def routes_example_def directions_22_def directions_66_def
  stops_22_north_def vehicles_22_def predictions_22_1_def two_routes_trace_def browsing_trace_def
  predicting_trace_def

lemmas model_defs = run_def mount_def initial_state_def run_effects_def effect_route_def
  effect_route_direction_def on_routes_def on_directions_def on_stops_def on_vehicles_def
  on_predictions_def then_catch_def payload_def get_prop_opt_def or_empty_def getPredictions_def
  resetApp_def Let_def

lemma two_routes_world:
  "run mount two_routes_trace =
     \<lparr> st = initial_state\<lparr>routes := routes_example, selectedRoute := ''66'', directions := directions_66\<rparr>,
       pending = [GetDirections ''22''], geoPending = True \<rparr>"
  by (simp add: ex_defs model_defs)

lemma browsing_world:
  "run mount browsing_trace =
     \<lparr> st = initial_state\<lparr>routes := routes_example, selectedRoute := ''22'',
              directions := directions_22, direction := ''Northbound'',
              stops := stops_22_north, vehicles := vehicles_22, stopsLoaded := True\<rparr>,
       pending = [], geoPending = True \<rparr>"
  by (simp add: ex_defs model_defs)

lemma predicting_world:
  "run mount predicting_trace =
     \<lparr> st = initial_state\<lparr>routes := routes_example, selectedRoute := ''22'',
              directions := directions_22, direction := ''Northbound'',
              stops := stops_22_north, selectedStop := ''1'', predictions := predictions_22_1,
              vehicles := vehicles_22, predictionAttempted := True, stopsLoaded := True\<rparr>,
       pending = [], geoPending = True \<rparr>"
  by (simp add: ex_defs model_defs)

subsection \<open>Rendering\<close>

lemma render_message_iff:
  "render_stops s = Inr NoStopDataMessage \<longleftrightarrow>
     direction s \<noteq> [] \<and> stopsLoaded s \<and> length_gt_zero (stops s) = Inr False"
  by (auto simp: render_stops_def split: sum.splits bool.splits if_splits)

lemma render_message_array:
  "render_stops (s\<lparr>stops := JArr xs\<rparr>) = Inr NoStopDataMessage \<longleftrightarrow>
     direction s \<noteq> [] \<and> stopsLoaded s \<and> xs = []"
  by (auto simp: render_message_iff length_gt_zero_def)

subsection \<open>Bounding boxes\<close>

lemma those_map_Some: "those (map Some ps) = Some ps"
  by (induction ps) simp_all

lemma finite_point_no_nan: "finite_point p = Some q \<Longrightarrow> \<not> has_nan p"
  by (cases p rule: finite_point.cases) (simp_all add: has_nan_def)

lemma bus_points_coordinates:
  "map coordinates xs = map Some ps \<Longrightarrow>
   \<exists>qs. bus_points xs = Inr qs \<and> map finite_point qs = map Some ps"
proof (induction xs arbitrary: ps)
  case Nil
  then show ?case by simp
next
  case (Cons bus xs)
  then obtain p ps' where ps: "ps = p # ps'" and c: "coordinates bus = Some p"
    and rest: "map coordinates xs = map Some ps'"
    by (cases ps) auto
  obtain qs where qs: "bus_points xs = Inr qs" "map finite_point qs = map Some ps'"
    using Cons.IH [OF rest] by blast
  obtain la lo where l: "get_prop bus ''lat'' = Inr la" "get_prop bus ''lon'' = Inr lo"
    and f: "finite_point (parseFloat la, parseFloat lo) = Some p"
    using c by (auto simp: coordinates_def split: sum.splits)
  show ?case using qs l f ps by simp
qed

lemma latLngBounds_finite:
  assumes "map finite_point qs = map Some ps"
  shows "latLngBounds qs = Inr (covering_box ps)"
proof -
  have "\<not> has_nan q" if "q \<in> set qs" for q
  proof -
    have "finite_point q \<in> set (map Some ps)" using that assms by (metis imageI set_map)
    then obtain r where "finite_point q = Some r" by auto
    then show ?thesis by (rule finite_point_no_nan)
  qed
  then have "\<not> list_ex has_nan qs" by (simp add: list_ex_iff)
  then show ?thesis using assms by (simp add: latLngBounds_def those_map_Some)
qed

lemma extend_covers_new: "covers (extend_bounds b q) q"
  by (simp add: covers_def extend_bounds_def)

lemma foldl_extend_covers_start:
  "covers b p \<Longrightarrow> covers (foldl extend_bounds b ps) p"
proof (induction ps arbitrary: b)
  case Nil
  then show ?case by simp
next
  case (Cons q ps)
  have "covers (extend_bounds b q) p"
    using Cons.prems by (auto simp: covers_def extend_bounds_def min_le_iff_disj le_max_iff_disj)
  then show ?case using Cons.IH by simp
qed

lemma foldl_extend_covers: "q \<in> set ps \<Longrightarrow> covers (foldl extend_bounds b ps) q"
proof (induction ps arbitrary: b)
  case Nil
  then show ?case by simp
next
  case (Cons a ps)
  show ?case
  proof (cases "q = a")
    case True
    have "covers (foldl extend_bounds (extend_bounds b a) ps) a"
      using extend_covers_new by (rule foldl_extend_covers_start)
    then show ?thesis using True by simp
  next
    case False
    then have "q \<in> set ps" using Cons.prems by simp
    then show ?thesis using Cons.IH by simp
  qed
qed

lemma foldl_extend_least:
  "inside b b' \<Longrightarrow> \<forall>q\<in>set ps. covers b' q \<Longrightarrow> inside (foldl extend_bounds b ps) b'"
proof (induction ps arbitrary: b)
  case Nil
  then show ?case by simp
next
  case (Cons a ps)
  have "inside (extend_bounds b a) b'"
    using Cons.prems by (auto simp: inside_def covers_def extend_bounds_def)
  then show ?case using Cons by simp
qed

lemma covering_box_nonempty: "ps \<noteq> [] \<Longrightarrow> \<exists>b. covering_box ps = Some b"
  by (cases ps) simp_all

lemma covering_box_covers:
  "covering_box ps = Some b \<Longrightarrow> q \<in> set ps \<Longrightarrow> covers b q"
proof (cases ps)
  case Nil
  then show "covering_box ps = Some b \<Longrightarrow> q \<in> set ps \<Longrightarrow> covers b q" by simp
next
  case (Cons p rest)
  assume b: "covering_box ps = Some b" and q: "q \<in> set ps"
  let ?b0 = "\<lparr> south = fst p, west = snd p, north = fst p, east = snd p \<rparr>"
  have b': "b = foldl extend_bounds ?b0 rest" using b Cons by simp
  have "covers ?b0 p" by (simp add: covers_def)
  then have "covers b p" unfolding b' by (rule foldl_extend_covers_start)
  moreover have "q \<in> set rest \<Longrightarrow> covers b q" unfolding b' by (rule foldl_extend_covers)
  ultimately show "covers b q" using q Cons by auto
qed

lemma covering_box_least:
  "covering_box ps = Some b \<Longrightarrow> \<forall>q\<in>set ps. covers b' q \<Longrightarrow> inside b b'"
proof (cases ps)
  case Nil
  then show "covering_box ps = Some b \<Longrightarrow> \<forall>q\<in>set ps. covers b' q \<Longrightarrow> inside b b'" by simp
next
  case (Cons p rest)
  assume b: "covering_box ps = Some b" and q: "\<forall>q\<in>set ps. covers b' q"
  let ?b0 = "\<lparr> south = fst p, west = snd p, north = fst p, east = snd p \<rparr>"
  have b'': "b = foldl extend_bounds ?b0 rest" using b Cons by simp
  have "covers b' p" using q Cons by simp
  then have "inside ?b0 b'" by (simp add: inside_def covers_def)
  moreover have "\<forall>q\<in>set rest. covers b' q" using q Cons by simp
  ultimately show "inside b b'" unfolding b'' by (rule foldl_extend_least)
qed

lemma expand_inside: "0 \<le> fst m \<Longrightarrow> 0 \<le> snd m \<Longrightarrow> inside b (expand m b)"
  by (simp add: inside_def expand_def)

lemma FitBounds_box:
  assumes "xs \<noteq> []" and "map coordinates xs = map Some ps"
    and "covering_box (ps @ [(lat u, lon u)]) = Some b"
  shows "FitBounds (JArr xs) (Some u) = Inr (Some \<lparr> fit_bounds = b, fit_padding = (50, 50) \<rparr>)"
proof -
  obtain qs where qs: "bus_points xs = Inr qs" "map finite_point qs = map Some ps"
    using bus_points_coordinates [OF assms(2)] by blast
  have "map finite_point (qs @ [(parseFloat (JNum (lat u)), parseFloat (JNum (lon u)))])
          = map Some (ps @ [(lat u, lon u)])"
    using qs(2) by simp
  then have "latLngBounds (qs @ [(parseFloat (JNum (lat u)), parseFloat (JNum (lon u)))]) = Inr (Some b)"
    using latLngBounds_finite assms(3) by metis
  then show ?thesis using assms(1) qs(1) by (simp add: FitBounds_def)
qed

lemmas parse_defs = parse_float_string_def is_space_def decimal_literal_def is_digit_def digit_val_def
  digits_value_def exponent_of_def scale10_def overflow_bound_def Let_def

lemma parse_samples:
  "parse_float_string ''41.9'' = Finite 41.9"
  "parse_float_string ''-87.6'' = Finite (-87.6)"
  "parse_float_string ''41.95'' = Finite 41.95"
  "parse_float_string ''-87.7'' = Finite (-87.7)"
  by (simp_all add: parse_defs)

text \<open>
  A vehicle without coordinates: both reads give \<^verbatim>\<open>undefined\<close>, \<^verbatim>\<open>parseFloat\<close> gives
  \<^verbatim>\<open>NaN\<close>, the construction of the bounds raises an error and no viewport is requested.
  The property C7 below is about vehicles whose coordinates are numbers.
\<close>

lemma FitBounds_no_coordinates:
  "FitBounds (JArr [JObj [(''vid'', JStr ''101'')]]) (Some u) = Inl InvalidLatLng \<and>
   fit pixel (JArr [JObj [(''vid'', JStr ''101'')]]) (Some u) = None"
  by (simp add: fit_def FitBounds_def latLngBounds_def has_nan_def)

subsection \<open>Splitting and parsing\<close>

lemma split_chr_notin: "c \<notin> set a \<Longrightarrow> split_chr c a = [a]"
  by (induction a) auto

lemma split_chr_append: "c \<notin> set a \<Longrightarrow> split_chr c (a @ c # b) = a # split_chr c b"
  by (induction a) auto

lemma is_dec_digit: "is_dec c \<Longrightarrow> is_digit 10 c"
  by (auto simp: is_dec_def is_digit_def digit_val_def)

lemma is_dec_not_space: "is_dec c \<Longrightarrow> \<not> is_space c"
  by (auto simp: is_dec_def is_space_def)

lemma parseInt_digits:
  assumes "hs \<noteq> []" and "\<forall>c\<in>set hs. is_dec c" and "digits_value 10 hs \<le> 9007199254740992"
  shows "parseInt hs = Num (digits_value 10 hs)"
proof -
  obtain c cs where hs: "hs = c # cs" using assms(1) by (cases hs) auto
  have c: "is_dec c" using assms(2) hs by simp
  have sp: "dropWhile is_space hs = hs" using c hs is_dec_not_space by simp
  have ns: "\<not> is_dec CHR ''-''" "\<not> is_dec CHR ''+''" "\<not> is_dec CHR ''x''" "\<not> is_dec CHR ''X''"
    by (simp_all add: is_dec_def)
  have sg: "take 1 hs \<noteq> ''-''" "take 1 hs \<noteq> ''+''" using c hs ns by auto
  have hx: "\<not> has_hex_prefix hs"
  proof
    assume "has_hex_prefix hs"
    then have "CHR ''x'' \<in> set (take 2 hs) \<or> CHR ''X'' \<in> set (take 2 hs)"
      by (auto simp: has_hex_prefix_def)
    then have "CHR ''x'' \<in> set hs \<or> CHR ''X'' \<in> set hs" by (meson in_set_takeD)
    then show False using assms(2) ns by blast
  qed
  have tw: "takeWhile (is_digit 10) hs = hs"
    using assms(2) is_dec_digit by (simp add: takeWhile_eq_all_conv)
  show ?thesis using sg assms(1,3) by (simp add: parseInt_def Let_def sp hx tw)
qed

text \<open>
  A timestamp without a date part has no second element after the split at the space, and
  \<^verbatim>\<open>time.split\<close> throws.  The property C8 below is about timestamps of the form
  \<^verbatim>\<open><date> <hour>:<minute>\<close>.
\<close>

lemma formatTime_no_date: "formatTime ''9:05'' = Inl TypeError"
  by (simp add: formatTime_def elem1_def)

section \<open>C1: which directions response populates the collection\<close>

text \<open>
  C1, counterexample.  C1 says that only the directions result of the most recently set
  route may populate \<^verbatim>\<open>directions\<close>, and that the result of a superseded call is
  discarded.  In the session \<open>two_routes_trace\<close> the rider has picked route 22 and then
  route 66, and the directions of route 66 have arrived.  The request for route 22 is
  still in flight; when its response arrives, \<^verbatim>\<open>directions\<close> holds the directions of
  route 22 while the selected route is 66.
\<close>

theorem stale_directions_counterexample:
  "pending (run mount two_routes_trace) ! 0 = GetDirections ''22'' \<and>
   selectedRoute (st (run mount two_routes_trace)) = ''66'' \<and>
   directions (st (run mount two_routes_trace)) = directions_66 \<and>
   directions_22 \<noteq> directions_66 \<and>
   directions (st (step (run mount two_routes_trace)
                        (Deliver 0 (Resolved (envelope ''directions'' directions_22))))) = directions_22 \<and>
   selectedRoute (st (step (run mount two_routes_trace)
                        (Deliver 0 (Resolved (envelope ''directions'' directions_22))))) = ''66''"
  by (simp add: two_routes_world) (simp add: ex_defs model_defs)

text \<open>
  C1, as the code has it.  No result of a directions fetch is discarded.  The response
  handler of a directions request does not look at the route the request was issued for:
  when a directions response arrives, for whichever route \<open>r\<close> it was requested and
  whatever route is selected by then, it populates \<^verbatim>\<open>directions\<close>: with the fetched list
  on success (with the empty sequence when the payload is falsy), with the empty sequence
  on a transport error or a throwing access.
\<close>

theorem directions_response_always_applied:
  assumes "i < length (pending w)" and "pending w ! i = GetDirections r"
  shows "directions (st (step w (Deliver i out))) =
           (case out of
              Rejected \<Rightarrow> JArr []
            | Resolved d \<Rightarrow>
                (case payload ''directions'' d of Inl e \<Rightarrow> JArr [] | Inr v \<Rightarrow> or_empty v)) \<and>
         directions (st (step w (Deliver i Rejected))) = JArr [] \<and>
         (map_of kvs ''bustime-response'' = Some (JObj env) \<and>
          map_of env ''directions'' = Some (JArr xs) \<longrightarrow>
            directions (st (step w (Deliver i (Resolved (JObj kvs))))) = JArr xs) \<and>
         (map_of kvs ''bustime-response'' = None \<longrightarrow>
            directions (st (step w (Deliver i (Resolved (JObj kvs))))) = JArr [])"
proof -
  have g: "directions (st (step w (Deliver i out'))) =
           (case out' of
              Rejected \<Rightarrow> JArr []
            | Resolved d \<Rightarrow>
                (case payload ''directions'' d of Inl e \<Rightarrow> JArr [] | Inr v \<Rightarrow> or_empty v))"
    for out'
  proof -
    obtain s' where s': "on_directions out' (st w) = Inr s'"
      and d: "directions s' = (case out' of Rejected \<Rightarrow> JArr []
          | Resolved d \<Rightarrow> (case payload ''directions'' d of Inl e \<Rightarrow> JArr [] | Inr v \<Rightarrow> or_empty v))"
      using handle_directions_field by blast
    show ?thesis using assms s' d by (simp add: run_effects_kept)
  qed
  have a: "directions (st (step w (Deliver i Rejected))) = JArr []"
    unfolding g by simp
  have b: "directions (st (step w (Deliver i (Resolved (JObj kvs))))) = JArr xs"
    if "map_of kvs ''bustime-response'' = Some (JObj env) \<and> map_of env ''directions'' = Some (JArr xs)"
    unfolding g using that by (simp add: payload_def or_empty_def)
  have c: "directions (st (step w (Deliver i (Resolved (JObj kvs))))) = JArr []"
    if "map_of kvs ''bustime-response'' = None"
    unfolding g using that by (simp add: payload_def)
  show ?thesis using g [of out] a b c by blast
qed

text \<open>
  C1, witness: the late response for route 22 is applied although route 66 is selected.
  As a transport error it empties \<^verbatim>\<open>directions\<close>; with the directions of route 22 it
  replaces those of route 66.
\<close>

theorem directions_response_always_applied_witness:
  "0 < length (pending (run mount two_routes_trace)) \<and>
   pending (run mount two_routes_trace) ! 0 = GetDirections ''22'' \<and>
   selectedRoute (st (run mount two_routes_trace)) = ''66'' \<and>
   directions (st (step (run mount two_routes_trace) (Deliver 0 Rejected))) = JArr [] \<and>
   directions (st (step (run mount two_routes_trace)
      (Deliver 0 (Resolved (JObj [(''bustime-response'', JObj [(''directions'', directions_22)])])))))
     = directions_22"
proof -
  have l: "0 < length (pending (run mount two_routes_trace))"
    and p: "pending (run mount two_routes_trace) ! 0 = GetDirections ''22''"
    and s: "selectedRoute (st (run mount two_routes_trace)) = ''66''"
    by (simp_all add: two_routes_world initial_state_def)
  have m: "map_of [(''bustime-response'', JObj [(''directions'', directions_22)])] ''bustime-response''
             = Some (JObj [(''directions'', directions_22)]) \<and>
           map_of [(''directions'', directions_22)] ''directions''
             = Some (JArr [JObj [(''dir'', JStr ''Northbound'')], JObj [(''dir'', JStr ''Southbound'')]])"
    by (simp add: directions_22_def)
  have d: "directions_22 = JArr [JObj [(''dir'', JStr ''Northbound'')], JObj [(''dir'', JStr ''Southbound'')]]"
    by (simp add: directions_22_def)
  show ?thesis
    using directions_response_always_applied [OF l p,
        of Rejected "[(''bustime-response'', JObj [(''directions'', directions_22)])]"
           "[(''directions'', directions_22)]"
           "[JObj [(''dir'', JStr ''Northbound'')], JObj [(''dir'', JStr ''Southbound'')]]"] l p s m d
    by metis
qed

section \<open>C2: what a route change clears, and when\<close>




section \<open>C3: failed fetches\<close>

text \<open>
  C3, counterexample.  C3 says that for each of the five collections a transport error
  results in the collection being set to the empty sequence.  After \<open>predicting_trace\<close> the
  predictions of stop 1 are shown; the rider asks again and the request is rejected: the
  predictions are still the previous ones, not the empty sequence.
\<close>

theorem failed_predictions_kept_counterexample:
  "predictions (st (run mount (predicting_trace @ [ClickGetPredictions]))) = predictions_22_1 \<and>
   pending (run mount (predicting_trace @ [ClickGetPredictions])) = [GetPredictions ''1'' ''22''] \<and>
   predictions (st (step (run mount (predicting_trace @ [ClickGetPredictions])) (Deliver 0 Rejected)))
     = predictions_22_1 \<and>
   predictions_22_1 \<noteq> JArr []"
proof -
  have w: "run mount (predicting_trace @ [ClickGetPredictions]) =
      (run mount predicting_trace)\<lparr>pending := [GetPredictions ''1'' ''22'']\<rparr>"
    by (simp add: run_def) (simp add: predicting_world [unfolded run_def] getPredictions_def initial_state_def)
  show ?thesis unfolding w
    by (simp add: predicting_world on_predictions_def then_catch_def run_effects_idle)
       (simp add: predictions_22_1_def initial_state_def)
qed

text \<open>
  C3, as the code has it.  No promise chain lets an exception escape: each handler ends in
  a state.  For routes, a transport error or a response whose \<^verbatim>\<open>routes\<close> field is not an
  array gives the empty sequence.  For directions, stops and vehicles, a transport error,
  a throwing access to the envelope or a missing (falsy) field gives the empty sequence.
  For predictions, a transport error or a throwing access leaves the state unchanged, and
  a readable envelope with a missing (falsy) field gives the empty sequence.  A field that
  is present, truthy and not an array is stored as it is by every handler but the one for
  routes; the statement says nothing about that case.
\<close>

theorem fetch_failure_degrades:
  "(\<exists>s'. on_routes out s = Inr s' \<and> (no_routes_array out \<longrightarrow> routes s' = JArr [])) \<and>
   (\<exists>s'. on_directions out s = Inr s' \<and> (no_payload ''directions'' out \<longrightarrow> directions s' = JArr [])) \<and>
   (\<exists>s'. on_stops out s = Inr s' \<and> (no_payload ''stops'' out \<longrightarrow> stops s' = JArr [])) \<and>
   (\<exists>s'. on_vehicles out s = Inr s' \<and> (no_payload ''vehicle'' out \<longrightarrow> vehicles s' = JArr [])) \<and>
   (\<exists>s'. on_predictions out s = Inr s' \<and>
          (no_envelope ''prd'' out \<longrightarrow> s' = s) \<and>
          (no_payload ''prd'' out \<and> \<not> no_envelope ''prd'' out \<longrightarrow> predictions s' = JArr []))"
proof (intro conjI)
  show "\<exists>s'. on_routes out s = Inr s' \<and> (no_routes_array out \<longrightarrow> routes s' = JArr [])"
    by (auto simp: on_routes_def then_catch_def no_routes_array_def Let_def split: outcome.splits)
  show "\<exists>s'. on_directions out s = Inr s' \<and> (no_payload ''directions'' out \<longrightarrow> directions s' = JArr [])"
    by (auto simp: on_directions_def then_catch_def no_payload_def or_empty_def split: outcome.splits sum.splits)
  show "\<exists>s'. on_stops out s = Inr s' \<and> (no_payload ''stops'' out \<longrightarrow> stops s' = JArr [])"
    by (auto simp: on_stops_def then_catch_def no_payload_def or_empty_def split: outcome.splits sum.splits)
  show "\<exists>s'. on_vehicles out s = Inr s' \<and> (no_payload ''vehicle'' out \<longrightarrow> vehicles s' = JArr [])"
    by (auto simp: on_vehicles_def then_catch_def no_payload_def or_empty_def split: outcome.splits sum.splits)
  show "\<exists>s'. on_predictions out s = Inr s' \<and>
          (no_envelope ''prd'' out \<longrightarrow> s' = s) \<and>
          (no_payload ''prd'' out \<and> \<not> no_envelope ''prd'' out \<longrightarrow> predictions s' = JArr [])"
    by (auto simp: on_predictions_def then_catch_def no_payload_def no_envelope_def or_empty_def
             split: outcome.splits sum.splits)
qed

text \<open>
  C3, witness: a body that is not JSON for the routes request, bodies without the expected
  field, and a null body for the predictions request.
\<close>

theorem fetch_failure_degrades_witness:
  "no_routes_array (Resolved (JStr ''Bad Gateway'')) \<and>
   no_payload ''directions'' (Resolved (JObj [(''error'', JStr ''no data'')])) \<and>
   no_payload ''stops'' Rejected \<and>
   no_payload ''vehicle'' (Resolved (envelope ''error'' (JStr ''No data found''))) \<and>
   no_envelope ''prd'' (Resolved JNull) \<and>
   on_routes (Resolved (JStr ''Bad Gateway'')) (st (run mount browsing_trace))
     = Inr ((st (run mount browsing_trace))\<lparr>routes := JArr []\<rparr>) \<and>
   on_predictions (Resolved JNull) (st (run mount predicting_trace)) = Inr (st (run mount predicting_trace))"
  using fetch_failure_degrades [of "Resolved (JStr ''Bad Gateway'')" "st (run mount browsing_trace)"]
        fetch_failure_degrades [of "Resolved JNull" "st (run mount predicting_trace)"]
  by (simp add: no_routes_array_def no_payload_def no_envelope_def payload_def envelope_def
        get_prop_opt_def on_routes_def on_predictions_def then_catch_def)

section \<open>C4: the two fetches of a direction change\<close>

text \<open>
  C4, counterexample.  C4 says that each of the two failures yields an empty sequence
  together with a fetch-completed flag set to true.  The component has one such flag, for
  stops.  After a direction change in \<open>browsing_trace\<close> the vehicles request is rejected:
  vehicles are empty, and neither flag of the state is true.
\<close>

theorem vehicles_failure_sets_no_flag_counterexample:
  "pending (step (run mount browsing_trace) (SelectDirection ''Southbound''))
     = [GetStops ''22'' ''Southbound'', GetVehicles ''22''] \<and>
   vehicles (st (step (step (run mount browsing_trace) (SelectDirection ''Southbound''))
                      (Deliver 1 Rejected))) = JArr [] \<and>
   \<not> stopsLoaded (st (step (step (run mount browsing_trace) (SelectDirection ''Southbound''))
                      (Deliver 1 Rejected))) \<and>
   \<not> predictionAttempted (st (step (step (run mount browsing_trace) (SelectDirection ''Southbound''))
                      (Deliver 1 Rejected)))"
proof -
  have w: "step (run mount browsing_trace) (SelectDirection ''Southbound'') =
     (run mount browsing_trace)\<lparr>st := (st (run mount browsing_trace))\<lparr>direction := ''Southbound'',
          stopsLoaded := False, selectedStop := [], predictions := JArr [],
          predictionAttempted := False\<rparr>,
       pending := [GetStops ''22'' ''Southbound'', GetVehicles ''22'']\<rparr>"
    using select_direction_world [of "run mount browsing_trace" "''Southbound''"]
    by (simp add: browsing_world initial_state_def)
  show ?thesis unfolding w
    by (simp add: on_vehicles_def then_catch_def run_effects_idle)
qed

text \<open>
  C4, as the code has it.  With a route set, choosing a non-empty direction different from
  the current one issues exactly two requests: stops for the route and direction, vehicles
  for the route.  A failed stops fetch gives the empty sequence of stops and sets the
  stops-loaded flag; a failed vehicles fetch gives the empty sequence of vehicles and
  changes nothing else, there being no flag for vehicles.  Whatever the outcome, the stops
  handler leaves the vehicles alone and the vehicles handler leaves stops and flag alone,
  and the two responses may arrive in either order with the same resulting world.
\<close>

theorem select_direction_two_fetches:
  assumes "selectedRoute (st w) \<noteq> []" and "d \<noteq> []" and "d \<noteq> direction (st w)"
  shows "pending (step w (SelectDirection d)) =
           pending w @ [GetStops (selectedRoute (st w)) d, GetVehicles (selectedRoute (st w))] \<and>
         on_stops Rejected s = Inr (s\<lparr>stops := JArr [], stopsLoaded := True\<rparr>) \<and>
         on_vehicles Rejected s = Inr (s\<lparr>vehicles := JArr []\<rparr>) \<and>
         (\<exists>s'. on_stops o1 s = Inr s' \<and> vehicles s' = vehicles s) \<and>
         (\<exists>s'. on_vehicles o2 s = Inr s' \<and> stops s' = stops s \<and> stopsLoaded s' = stopsLoaded s) \<and>
         step (step (step w (SelectDirection d)) (Deliver (length (pending w)) o1))
              (Deliver (length (pending w)) o2) =
         step (step (step w (SelectDirection d)) (Deliver (Suc (length (pending w))) o2))
              (Deliver (length (pending w)) o1)"
proof -
  let ?n = "length (pending w)"
  let ?r = "selectedRoute (st w)"
  let ?s0 = "(st w)\<lparr>direction := d, stopsLoaded := False, selectedStop := [],
                     predictions := JArr [], predictionAttempted := False\<rparr>"
  have w1: "step w (SelectDirection d) =
     w\<lparr>st := ?s0, pending := pending w @ [GetStops ?r d, GetVehicles ?r]\<rparr>"
    using select_direction_world [OF assms] .
  obtain s1 where s1: "on_stops o1 ?s0 = Inr s1" "selectedRoute s1 = selectedRoute ?s0"
      "direction s1 = direction ?s0"
    using on_stops_total by blast
  obtain s2 where s2: "on_vehicles o2 ?s0 = Inr s2" "selectedRoute s2 = selectedRoute ?s0"
      "direction s2 = direction ?s0"
    using on_vehicles_total by blast
  obtain s12 where s12: "on_vehicles o2 s1 = Inr s12" "selectedRoute s12 = selectedRoute s1"
      "direction s12 = direction s1"
    using on_vehicles_total by blast
  have s21: "on_stops o1 s2 = Inr s12"
    using stops_vehicles_commute [OF s1(1) s2(1)] s12(1) by simp
  have a: "step (step w (SelectDirection d)) (Deliver ?n o1) =
      w\<lparr>st := s1, pending := pending w @ [GetVehicles ?r]\<rparr>"
    unfolding w1 using s1 by (simp add: nth_append run_effects_idle)
  have b: "step (step w (SelectDirection d)) (Deliver (Suc ?n) o2) =
      w\<lparr>st := s2, pending := pending w @ [GetStops ?r d]\<rparr>"
    unfolding w1 using s2 by (simp add: nth_append run_effects_idle)
  have a': "step (w\<lparr>st := s1, pending := pending w @ [GetVehicles ?r]\<rparr>) (Deliver ?n o2) =
      w\<lparr>st := s12, pending := pending w\<rparr>"
    using s12 by (simp add: nth_append run_effects_idle)
  have b': "step (w\<lparr>st := s2, pending := pending w @ [GetStops ?r d]\<rparr>) (Deliver ?n o1) =
      w\<lparr>st := s12, pending := pending w\<rparr>"
    using s21 s12 s1 s2 by (simp add: nth_append run_effects_idle)
  have c: "on_stops Rejected s = Inr (s\<lparr>stops := JArr [], stopsLoaded := True\<rparr>)"
    by (simp add: on_stops_def then_catch_def)
  have e: "on_vehicles Rejected s = Inr (s\<lparr>vehicles := JArr []\<rparr>)"
    by (simp add: on_vehicles_def then_catch_def)
  have f: "\<exists>s'. on_stops o1 s = Inr s' \<and> vehicles s' = vehicles s"
    using on_stops_total [of o1 s] by blast
  have g: "\<exists>s'. on_vehicles o2 s = Inr s' \<and> stops s' = stops s \<and> stopsLoaded s' = stopsLoaded s"
    using on_vehicles_total [of o2 s] by blast
  have p: "pending (step w (SelectDirection d)) = pending w @ [GetStops ?r d, GetVehicles ?r]"
    unfolding w1 by simp
  have o: "step (step (step w (SelectDirection d)) (Deliver ?n o1)) (Deliver ?n o2) =
         step (step (step w (SelectDirection d)) (Deliver (Suc ?n) o2)) (Deliver ?n o1)"
    unfolding a b a' b' ..
  show ?thesis using p c e f g o by blast
qed

text \<open>
  C4, witness: the direction change to Southbound in \<open>browsing_trace\<close>, the stops request
  rejected and the vehicles request answered, in both orders.
\<close>

theorem select_direction_two_fetches_witness:
  "selectedRoute (st (run mount browsing_trace)) \<noteq> [] \<and> ''Southbound'' \<noteq> [] \<and>
   ''Southbound'' \<noteq> direction (st (run mount browsing_trace)) \<and>
   pending (step (run mount browsing_trace) (SelectDirection ''Southbound'')) =
     [GetStops ''22'' ''Southbound'', GetVehicles ''22''] \<and>
   on_stops Rejected initial_state = Inr (initial_state\<lparr>stops := JArr [], stopsLoaded := True\<rparr>) \<and>
   on_vehicles Rejected initial_state = Inr (initial_state\<lparr>vehicles := JArr []\<rparr>) \<and>
   step (step (step (run mount browsing_trace) (SelectDirection ''Southbound'')) (Deliver 0 Rejected))
        (Deliver 0 (Resolved (envelope ''vehicle'' vehicles_22))) =
   step (step (step (run mount browsing_trace) (SelectDirection ''Southbound''))
              (Deliver 1 (Resolved (envelope ''vehicle'' vehicles_22))))
        (Deliver 0 Rejected)"
proof -
  have h: "selectedRoute (st (run mount browsing_trace)) \<noteq> []" "''Southbound'' \<noteq> []"
      "''Southbound'' \<noteq> direction (st (run mount browsing_trace))"
    by (simp_all add: browsing_world initial_state_def)
  have e: "pending (run mount browsing_trace) = []" "selectedRoute (st (run mount browsing_trace)) = ''22''"
    by (simp_all add: browsing_world initial_state_def)
  show ?thesis
    using select_direction_two_fetches [OF h, of initial_state Rejected
        "Resolved (envelope ''vehicle'' vehicles_22)"] h
    by (simp only: e append_Nil list.size One_nat_def simp_thms)
qed

section \<open>C5: predictions\<close>

text \<open>
  C5.  Fetching predictions is manual only: the button handler does nothing when no stop
  is selected and otherwise issues one predictions request, and no other event adds a
  predictions request to those in flight.  When the response arrives with a list under
  \<^verbatim>\<open>bustime-response.prd\<close>, the predictions become exactly that list and the
  prediction-attempted flag becomes true, nothing else changing; in general the
  predictions become the payload read (the empty sequence when it is falsy).  When the
  fetch fails (transport error, or a body without the envelope, where the access throws)
  the state, and so the predictions and the flag, is unchanged.
\<close>

theorem predictions_manual_only:
  "(selectedStop (st w) = [] \<longrightarrow> step w ClickGetPredictions = w) \<and>
   (selectedStop (st w) \<noteq> [] \<longrightarrow>
      step w ClickGetPredictions =
        w\<lparr>pending := pending w @ [GetPredictions (selectedStop (st w)) (selectedRoute (st w))]\<rparr>) \<and>
   (e \<noteq> ClickGetPredictions \<longrightarrow>
      (\<forall>r \<in> set (pending (step w e)). is_predictions_request r \<longrightarrow> r \<in> set (pending w))) \<and>
   (i < length (pending w) \<and> pending w ! i = GetPredictions stop rt \<longrightarrow>
      (\<forall>d v. payload ''prd'' d = Inr v \<longrightarrow>
         predictions (st (step w (Deliver i (Resolved d)))) = or_empty v \<and>
         predictionAttempted (st (step w (Deliver i (Resolved d))))) \<and>
      (\<forall>out. no_envelope ''prd'' out \<longrightarrow> st (step w (Deliver i out)) = st w) \<and>
      (\<forall>kvs env xs.
         map_of kvs ''bustime-response'' = Some (JObj env) \<and> map_of env ''prd'' = Some (JArr xs) \<longrightarrow>
         st (step w (Deliver i (Resolved (JObj kvs)))) =
           (st w)\<lparr>predictions := JArr xs, predictionAttempted := True\<rparr>) \<and>
      st (step w (Deliver i Rejected)) = st w \<and>
      (\<forall>kvs. map_of kvs ''bustime-response'' = None \<longrightarrow>
         st (step w (Deliver i (Resolved (JObj kvs)))) = st w))"
proof -
  have c1: "selectedStop (st w) = [] \<longrightarrow> step w ClickGetPredictions = w"
    by (simp add: getPredictions_def)
  have c2: "selectedStop (st w) \<noteq> [] \<longrightarrow>
      step w ClickGetPredictions =
        w\<lparr>pending := pending w @ [GetPredictions (selectedStop (st w)) (selectedRoute (st w))]\<rparr>"
    by (simp add: getPredictions_def)
  have c3: "e \<noteq> ClickGetPredictions \<longrightarrow>
      (\<forall>r \<in> set (pending (step w e)). is_predictions_request r \<longrightarrow> r \<in> set (pending w))"
    using step_no_new_predictions by blast
  have c4: "(\<forall>d v. payload ''prd'' d = Inr v \<longrightarrow>
         predictions (st (step w (Deliver i (Resolved d)))) = or_empty v \<and>
         predictionAttempted (st (step w (Deliver i (Resolved d))))) \<and>
      (\<forall>out. no_envelope ''prd'' out \<longrightarrow> st (step w (Deliver i out)) = st w) \<and>
      (\<forall>kvs env xs.
         map_of kvs ''bustime-response'' = Some (JObj env) \<and> map_of env ''prd'' = Some (JArr xs) \<longrightarrow>
         st (step w (Deliver i (Resolved (JObj kvs)))) =
           (st w)\<lparr>predictions := JArr xs, predictionAttempted := True\<rparr>) \<and>
      st (step w (Deliver i Rejected)) = st w \<and>
      (\<forall>kvs. map_of kvs ''bustime-response'' = None \<longrightarrow>
         st (step w (Deliver i (Resolved (JObj kvs)))) = st w)"
    if a: "i < length (pending w) \<and> pending w ! i = GetPredictions stop rt"
  proof -
    have s: "st (step w (Deliver i (Resolved d))) =
        (st w)\<lparr>predictions := or_empty v, predictionAttempted := True\<rparr>"
      if "payload ''prd'' d = Inr v" for d v
      using a that by (simp add: on_predictions_def then_catch_def run_effects_idle)
    have f: "st (step w (Deliver i out)) = st w" if n: "no_envelope ''prd'' out" for out
    proof -
      have "on_predictions out (st w) = Inr (st w)"
        using n by (auto simp: no_envelope_def on_predictions_def then_catch_def
                         split: outcome.splits sum.splits)
      then show ?thesis using a by (simp add: run_effects_idle)
    qed
    have p1: "\<forall>d v. payload ''prd'' d = Inr v \<longrightarrow>
         predictions (st (step w (Deliver i (Resolved d)))) = or_empty v \<and>
         predictionAttempted (st (step w (Deliver i (Resolved d))))"
    proof (intro allI impI)
      fix d v assume p: "payload ''prd'' d = Inr v"
      show "predictions (st (step w (Deliver i (Resolved d)))) = or_empty v \<and>
         predictionAttempted (st (step w (Deliver i (Resolved d))))"
        unfolding s [OF p] by simp
    qed
    have p2: "\<forall>out. no_envelope ''prd'' out \<longrightarrow> st (step w (Deliver i out)) = st w"
      using f by blast
    have p3: "\<forall>kvs env xs.
         map_of kvs ''bustime-response'' = Some (JObj env) \<and> map_of env ''prd'' = Some (JArr xs) \<longrightarrow>
         st (step w (Deliver i (Resolved (JObj kvs)))) =
           (st w)\<lparr>predictions := JArr xs, predictionAttempted := True\<rparr>"
    proof (intro allI impI)
      fix kvs env xs
      assume m: "map_of kvs ''bustime-response'' = Some (JObj env) \<and> map_of env ''prd'' = Some (JArr xs)"
      have "payload ''prd'' (JObj kvs) = Inr (JArr xs)" using m by (simp add: payload_def)
      from s [OF this] show "st (step w (Deliver i (Resolved (JObj kvs)))) =
           (st w)\<lparr>predictions := JArr xs, predictionAttempted := True\<rparr>"
        by (simp add: or_empty_def)
    qed
    have p4: "st (step w (Deliver i Rejected)) = st w"
      by (rule f) (simp add: no_envelope_def)
    have p5: "\<forall>kvs. map_of kvs ''bustime-response'' = None \<longrightarrow>
         st (step w (Deliver i (Resolved (JObj kvs)))) = st w"
    proof (intro allI impI)
      fix kvs :: "(string \<times> json) list"
      assume "map_of kvs ''bustime-response'' = None"
      then have "no_envelope ''prd'' (Resolved (JObj kvs))"
        by (simp add: no_envelope_def payload_def)
      then show "st (step w (Deliver i (Resolved (JObj kvs)))) = st w" by (rule f)
    qed
    show ?thesis using p1 p2 p3 p4 p5 by blast
  qed
  show ?thesis using c1 c2 c3 c4 by blast
qed

text \<open>
  C5, witness: the button pressed right after mounting; then, after \<open>predicting_trace\<close>, a
  second predictions request, once answered with later predictions, which replace the
  ones shown, and once rejected, which changes nothing.
\<close>

theorem predictions_manual_only_witness:
  "selectedStop (st mount) = [] \<and> step mount ClickGetPredictions = mount \<and>
   SelectStop ''1'' \<noteq> ClickGetPredictions \<and>
   0 < length (pending (step (run mount predicting_trace) ClickGetPredictions)) \<and>
   pending (step (run mount predicting_trace) ClickGetPredictions) ! 0 = GetPredictions ''1'' ''22'' \<and>
   predictions (st (step (run mount predicting_trace) ClickGetPredictions)) = predictions_22_1 \<and>
   predictions_22_1 \<noteq> predictions_22_2 \<and>
   st (step (step (run mount predicting_trace) ClickGetPredictions)
        (Deliver 0 (Resolved (JObj [(''bustime-response'', JObj [(''prd'', predictions_22_2)])])))) =
     (st (step (run mount predicting_trace) ClickGetPredictions))
       \<lparr>predictions := predictions_22_2, predictionAttempted := True\<rparr> \<and>
   st (step (step (run mount predicting_trace) ClickGetPredictions) (Deliver 0 Rejected)) =
     st (step (run mount predicting_trace) ClickGetPredictions)"
proof -
  let ?W = "step (run mount predicting_trace) ClickGetPredictions"
  have a: "selectedStop (st mount) = []" by (simp add: mount_def initial_state_def)
  have w: "?W = (run mount predicting_trace)\<lparr>pending := [GetPredictions ''1'' ''22'']\<rparr>"
    by (simp add: predicting_world getPredictions_def initial_state_def)
  have l: "0 < length (pending ?W) \<and> pending ?W ! 0 = GetPredictions ''1'' ''22''"
    unfolding w by simp
  have q: "predictions (st ?W) = predictions_22_1"
    unfolding w by (simp add: predicting_world)
  have ne: "predictions_22_1 \<noteq> predictions_22_2"
    by (simp add: predictions_22_1_def predictions_22_2_def)
  have m: "map_of [(''bustime-response'', JObj [(''prd'', predictions_22_2)])] ''bustime-response''
             = Some (JObj [(''prd'', predictions_22_2)]) \<and>
           map_of [(''prd'', predictions_22_2)] ''prd''
             = Some (JArr [JObj [(''rt'', JStr ''22''), (''rtdir'', JStr ''Northbound''),
                                 (''prdtm'', JStr ''12/25 14:25'')]])"
    by (simp add: predictions_22_2_def)
  have d: "predictions_22_2 = JArr [JObj [(''rt'', JStr ''22''), (''rtdir'', JStr ''Northbound''),
                                 (''prdtm'', JStr ''12/25 14:25'')]]"
    by (simp add: predictions_22_2_def)
  have t1: "step mount ClickGetPredictions = mount"
    using predictions_manual_only [of mount "SelectStop ''1''" 0 "''1''" "''22''"] a by blast
  have t2: "st (step ?W (Deliver 0 (Resolved (JObj [(''bustime-response'', JObj [(''prd'', predictions_22_2)])])))) =
     (st ?W)\<lparr>predictions := predictions_22_2, predictionAttempted := True\<rparr>"
    using predictions_manual_only [of ?W "SelectStop ''1''" 0 "''1''" "''22''"] l m d by metis
  have t3: "st (step ?W (Deliver 0 Rejected)) = st ?W"
    using predictions_manual_only [of ?W "SelectStop ''1''" 0 "''1''" "''22''"] l by blast
  show ?thesis using a t1 l q ne t2 t3 by blast
qed

section \<open>C6: reset\<close>

text \<open>
  C6.  After the reset handler, the state is the initial state except for the list of
  routes, which the handler does not touch: route, direction, stop, directions, stops,
  predictions, vehicles, user location and the two flags have their initial values.  The
  setters of the handler take effect together, so this is one step of the model; the
  effects that run afterwards see an empty route and do nothing, and no request is issued.
\<close>

theorem reset_restores_initial:
  "st (step w ClickReset) = initial_state\<lparr>routes := routes (st w)\<rparr> \<and>
   selectedRoute (st (step w ClickReset)) = selectedRoute initial_state \<and>
   direction (st (step w ClickReset)) = direction initial_state \<and>
   selectedStop (st (step w ClickReset)) = selectedStop initial_state \<and>
   directions (st (step w ClickReset)) = directions initial_state \<and>
   stops (st (step w ClickReset)) = stops initial_state \<and>
   predictions (st (step w ClickReset)) = predictions initial_state \<and>
   vehicles (st (step w ClickReset)) = vehicles initial_state \<and>
   userLocation (st (step w ClickReset)) = userLocation initial_state \<and>
   stopsLoaded (st (step w ClickReset)) = stopsLoaded initial_state \<and>
   predictionAttempted (st (step w ClickReset)) = predictionAttempted initial_state \<and>
   pending (step w ClickReset) = pending w"
proof -
  have r: "selectedRoute (resetApp (st w)) = []" by (simp add: resetApp_def)
  have "step w ClickReset = w\<lparr>st := resetApp (st w)\<rparr>"
    using r by (simp add: run_effects_no_route)
  moreover have "resetApp (st w) = initial_state\<lparr>routes := routes (st w)\<rparr>"
    by (simp add: resetApp_def initial_state_def)
  ultimately show ?thesis by (simp add: initial_state_def)
qed

text \<open>
  C6, witness: the reset after \<open>predicting_trace\<close>.
\<close>

theorem reset_restores_initial_witness:
  "st (step (run mount predicting_trace) ClickReset) = initial_state\<lparr>routes := routes_example\<rparr> \<and>
   pending (step (run mount predicting_trace) ClickReset) = []"
  using reset_restores_initial [of "run mount predicting_trace"]
  by (simp add: predicting_world)

section \<open>C7: fitting the viewport\<close>

text \<open>
  C7.  With no vehicle, or with no user location, the effect of \<^verbatim>\<open>FitBounds\<close> makes no
  call and the fit is none.  Otherwise, for vehicles whose coordinates are numbers, the
  effect calls \<^verbatim>\<open>map.fitBounds\<close> with the box of all vehicle coordinates and the user
  coordinate and the fixed padding of 50 by 50: the box covers each of these points and
  lies inside every box that covers them all, and the fit is this box expanded by the
  padding, which contains the box.  For the single vehicle at (1, 1) and the user at
  (1, 1) the box is the point (1, 1), and its expansion by the padding contains (1, 1).
\<close>

theorem viewport_fit:
  "FitBounds (JArr []) loc = Inr None \<and> fit pixel (JArr []) loc = None \<and>
   FitBounds (JArr xs) None = Inr None \<and> fit pixel (JArr xs) None = None \<and>
   (xs \<noteq> [] \<and> map coordinates xs = map Some ps \<longrightarrow>
      (\<exists>b. FitBounds (JArr xs) (Some u) = Inr (Some \<lparr> fit_bounds = b, fit_padding = (50, 50) \<rparr>) \<and>
           fit pixel (JArr xs) (Some u) = Some (expand (fst pixel * 50, snd pixel * 50) b) \<and>
           (\<forall>p\<in>set ps. covers b p) \<and>
           covers b (lat u, lon u) \<and>
           (\<forall>b'. (\<forall>p\<in>set ps. covers b' p) \<and> covers b' (lat u, lon u) \<longrightarrow> inside b b') \<and>
           (0 \<le> fst pixel \<and> 0 \<le> snd pixel \<longrightarrow>
              inside b (expand (fst pixel * 50, snd pixel * 50) b)))) \<and>
   FitBounds (JArr [JObj [(''lat'', JNum 1), (''lon'', JNum 1)]]) (Some \<lparr>lat = 1, lon = 1\<rparr>)
     = Inr (Some \<lparr> fit_bounds = \<lparr>south = 1, west = 1, north = 1, east = 1\<rparr>,
                  fit_padding = (50, 50) \<rparr>) \<and>
   fit pixel (JArr [JObj [(''lat'', JNum 1), (''lon'', JNum 1)]]) (Some \<lparr>lat = 1, lon = 1\<rparr>)
     = Some \<lparr>south = 1 - snd pixel * 50, west = 1 - fst pixel * 50,
             north = 1 + snd pixel * 50, east = 1 + fst pixel * 50\<rparr> \<and>
   (0 \<le> fst pixel \<and> 0 \<le> snd pixel \<longrightarrow>
      covers \<lparr>south = 1 - snd pixel * 50, west = 1 - fst pixel * 50,
              north = 1 + snd pixel * 50, east = 1 + fst pixel * 50\<rparr> (1, 1))"
proof (intro conjI impI)
  show "FitBounds (JArr []) loc = Inr None" by (simp add: FitBounds_def)
  then show "fit pixel (JArr []) loc = None" by (simp add: fit_def)
  show n: "FitBounds (JArr xs) None = Inr None" by (simp add: FitBounds_def)
  then show "fit pixel (JArr xs) None = None" by (simp add: fit_def)
next
  assume a: "xs \<noteq> [] \<and> map coordinates xs = map Some ps"
  let ?user = "(lat u, lon u)"
  obtain b where b: "covering_box (ps @ [?user]) = Some b"
    using covering_box_nonempty [of "ps @ [?user]"] by auto
  have fb: "FitBounds (JArr xs) (Some u) = Inr (Some \<lparr> fit_bounds = b, fit_padding = (50, 50) \<rparr>)"
    using a b FitBounds_box by blast
  have f: "fit pixel (JArr xs) (Some u) = Some (expand (fst pixel * 50, snd pixel * 50) b)"
    by (simp add: fit_def fb)
  have c1: "\<forall>p\<in>set ps. covers b p"
    using covering_box_covers [OF b] by simp
  have c2: "covers b ?user"
    using covering_box_covers [OF b] by simp
  have c3: "\<forall>b'. (\<forall>p\<in>set ps. covers b' p) \<and> covers b' ?user \<longrightarrow> inside b b'"
  proof (intro allI impI)
    fix b' assume "(\<forall>p\<in>set ps. covers b' p) \<and> covers b' ?user"
    then have "\<forall>q\<in>set (ps @ [?user]). covers b' q" by auto
    then show "inside b b'" using covering_box_least [OF b] by blast
  qed
  have c4: "0 \<le> fst pixel \<and> 0 \<le> snd pixel \<longrightarrow>
              inside b (expand (fst pixel * 50, snd pixel * 50) b)"
    by (simp add: expand_inside)
  show "\<exists>b. FitBounds (JArr xs) (Some u) = Inr (Some \<lparr> fit_bounds = b, fit_padding = (50, 50) \<rparr>) \<and>
           fit pixel (JArr xs) (Some u) = Some (expand (fst pixel * 50, snd pixel * 50) b) \<and>
           (\<forall>p\<in>set ps. covers b p) \<and>
           covers b (lat u, lon u) \<and>
           (\<forall>b'. (\<forall>p\<in>set ps. covers b' p) \<and> covers b' (lat u, lon u) \<longrightarrow> inside b b') \<and>
           (0 \<le> fst pixel \<and> 0 \<le> snd pixel \<longrightarrow>
              inside b (expand (fst pixel * 50, snd pixel * 50) b))"
    using fb f c1 c2 c3 c4 by blast
next
  show e: "FitBounds (JArr [JObj [(''lat'', JNum 1), (''lon'', JNum 1)]]) (Some \<lparr>lat = 1, lon = 1\<rparr>)
     = Inr (Some \<lparr> fit_bounds = \<lparr>south = 1, west = 1, north = 1, east = 1\<rparr>,
                  fit_padding = (50, 50) \<rparr>)"
    by (simp add: FitBounds_def latLngBounds_def has_nan_def extend_bounds_def)
  show "fit pixel (JArr [JObj [(''lat'', JNum 1), (''lon'', JNum 1)]]) (Some \<lparr>lat = 1, lon = 1\<rparr>)
     = Some \<lparr>south = 1 - snd pixel * 50, west = 1 - fst pixel * 50,
             north = 1 + snd pixel * 50, east = 1 + fst pixel * 50\<rparr>"
    by (simp add: fit_def e expand_def)
next
  assume "0 \<le> fst pixel \<and> 0 \<le> snd pixel"
  then show "covers \<lparr>south = 1 - snd pixel * 50, west = 1 - fst pixel * 50,
              north = 1 + snd pixel * 50, east = 1 + fst pixel * 50\<rparr> (1, 1)"
    by (simp add: covers_def)
qed

text \<open>
  C7, witness: two vehicles whose coordinates arrive as strings, and the fallback
  location; a pixel of a thousandth of a degree.
\<close>

theorem viewport_fit_witness:
  "two_vehicles \<noteq> [] \<and>
   map coordinates two_vehicles = map Some [(41.9, -87.6), (41.95, -87.7)] \<and>
   FitBounds (JArr two_vehicles) (Some \<lparr>lat = 41.8781, lon = -87.6298\<rparr>)
     = Inr (Some \<lparr> fit_bounds = \<lparr>south = 41.8781, west = -87.7, north = 41.95, east = -87.6\<rparr>,
                  fit_padding = (50, 50) \<rparr>) \<and>
   fit (0.001, 0.001) (JArr two_vehicles) (Some \<lparr>lat = 41.8781, lon = -87.6298\<rparr>)
     = Some \<lparr>south = 41.8281, west = -87.75, north = 42, east = -87.55\<rparr> \<and>
   covers \<lparr>south = 41.8781, west = -87.7, north = 41.95, east = -87.6\<rparr> (41.9, -87.6::real)"
proof -
  have c: "map coordinates two_vehicles = map Some [(41.9, -87.6), (41.95, -87.7)]"
    by (simp add: two_vehicles_def coordinates_def parse_samples)
  have n: "two_vehicles \<noteq> []" by (simp add: two_vehicles_def)
  note g = viewport_fit [of None "(0.001, 0.001)" two_vehicles "[(41.9, -87.6), (41.95, -87.7)]"
      "\<lparr>lat = 41.8781, lon = -87.6298\<rparr>",
      THEN conjunct2, THEN conjunct2, THEN conjunct2, THEN conjunct2, THEN conjunct1]
  have h: "two_vehicles \<noteq> [] \<and>
      map coordinates two_vehicles = map Some [(41.9, -87.6), (41.95, -87.7)]"
    using n c by (rule conjI)
  from mp [OF g h] obtain b where b:
    "FitBounds (JArr two_vehicles) (Some \<lparr>lat = 41.8781, lon = -87.6298\<rparr>)
       = Inr (Some \<lparr> fit_bounds = b, fit_padding = (50, 50) \<rparr>)"
    "fit (0.001, 0.001) (JArr two_vehicles) (Some \<lparr>lat = 41.8781, lon = -87.6298\<rparr>)
       = Some (expand (fst (0.001, 0.001) * 50, snd (0.001, 0.001) * 50) b)"
    by (elim exE conjE) simp
  have v: "FitBounds (JArr two_vehicles) (Some \<lparr>lat = 41.8781, lon = -87.6298\<rparr>)
     = Inr (Some \<lparr> fit_bounds = \<lparr>south = 41.8781, west = -87.7, north = 41.95, east = -87.6\<rparr>,
                  fit_padding = (50, 50) \<rparr>)"
    by (simp add: two_vehicles_def FitBounds_def latLngBounds_def has_nan_def extend_bounds_def
          parse_samples)
  have b': "b = \<lparr>south = 41.8781, west = -87.7, north = 41.95, east = -87.6\<rparr>"
    using b(1) v by simp
  have f: "fit (0.001, 0.001) (JArr two_vehicles) (Some \<lparr>lat = 41.8781, lon = -87.6298\<rparr>)
     = Some \<lparr>south = 41.8281, west = -87.75, north = 42, east = -87.55\<rparr>"
    using b(2) unfolding b' by (simp add: expand_def)
  have cv: "covers \<lparr>south = 41.8781, west = -87.7, north = 41.95, east = -87.6\<rparr> (41.9, -87.6::real)"
    by (simp add: covers_def)
  show ?thesis using n c v f cv by simp
qed

section \<open>C8: formatTime\<close>

text \<open>
  C8.  For a timestamp made of a date without a space, a space, an hour written in
  decimal digits with a value below 24, a colon and a minute string (without colon and
  space), \<^verbatim>\<open>formatTime\<close> returns the hour on the 12-hour clock (12 for the hours 0 and 12),
  a colon, the minute string exactly as received, a space and \<^verbatim>\<open>AM\<close> below 12 or
  \<^verbatim>\<open>PM\<close> from 12 on.
\<close>

theorem formatTime_12_hour:
  assumes "CHR '' '' \<notin> set date"
    and "hs \<noteq> []" and "\<forall>c\<in>set hs. is_dec c" and "digits_value 10 hs = int h" and "h < 24"
    and "CHR '':'' \<notin> set minute" and "CHR '' '' \<notin> set minute"
  shows "formatTime (date @ '' '' @ hs @ '':'' @ minute) =
     Inr (show_nat (if h mod 12 = 0 then 12 else h mod 12) @ '':'' @ minute @ '' '' @
          (if h \<ge> 12 then ''PM'' else ''AM''))"
proof -
  have nd: "\<not> is_dec CHR '' ''" "\<not> is_dec CHR '':''" by (simp_all add: is_dec_def)
  have nsh: "CHR '' '' \<notin> set hs" using assms(3) nd(1) by blast
  have nsp: "CHR '' '' \<notin> set (hs @ '':'' @ minute)" using nsh assms(7) by simp
  have ncl: "CHR '':'' \<notin> set hs" using assms(3) nd(2) by blast
  have t: "elem1 (split_chr CHR '' '' (date @ '' '' @ hs @ '':'' @ minute)) = Some (hs @ '':'' @ minute)"
    using split_chr_append [OF assms(1), of "hs @ '':'' @ minute"] split_chr_notin [OF nsp]
    by (simp add: elem1_def)
  have p: "split_chr CHR '':'' (hs @ '':'' @ minute) = [hs, minute]"
    using split_chr_append [OF ncl, of minute] split_chr_notin [OF assms(6)] by simp
  have pi: "parseInt hs = Num (int h)"
    using parseInt_digits [OF assms(2,3)] assms(4,5) by simp
  have r: "js_rem (int h) 12 = int (h mod 12)"
    using assms(5) by (simp add: js_rem_def sgn_if zmod_int)
  show ?thesis
    unfolding formatTime_def t using p pi r by (simp add: elem0_def elem1_def Let_def show_int_def)
qed

text \<open>
  C8, witness: the four timestamps named by the property.
\<close>

theorem formatTime_12_hour_witness:
  "formatTime ''12/25 0:05'' = Inr ''12:05 AM'' \<and>
   formatTime ''12/25 13:30'' = Inr ''1:30 PM'' \<and>
   formatTime ''12/25 12:00'' = Inr ''12:00 PM'' \<and>
   formatTime ''12/25 9:05'' = Inr ''9:05 AM''"
  using formatTime_12_hour [of "''12/25''" "''0''" 0 "''05''"]
    formatTime_12_hour [of "''12/25''" "''13''" 13 "''30''"]
    formatTime_12_hour [of "''12/25''" "''12''" 12 "''00''"]
    formatTime_12_hour [of "''12/25''" "''9''" 9 "''05''"]
  by (simp add: is_dec_def digits_value_def digit_val_def show_nat.simps)

section \<open>C9: the stops-loaded flag and the stops section\<close>

text \<open>
  C9, counterexample.  C9 says that while the stops fetch is pending the interface shows
  neither the message nor a stop list.  After \<open>browsing_trace\<close> the rider changes the
  direction to Southbound.  The stops request is in flight and the flag is false, but the
  stops of the previous direction are still in the state and the stop selector is rendered.
\<close>

theorem stale_stop_list_counterexample:
  "pending (step (run mount browsing_trace) (SelectDirection ''Southbound''))
     = [GetStops ''22'' ''Southbound'', GetVehicles ''22''] \<and>
   \<not> stopsLoaded (st (step (run mount browsing_trace) (SelectDirection ''Southbound''))) \<and>
   stops (st (step (run mount browsing_trace) (SelectDirection ''Southbound''))) = stops_22_north \<and>
   render_stops (st (step (run mount browsing_trace) (SelectDirection ''Southbound''))) = Inr StopSelector"
proof -
  have w: "step (run mount browsing_trace) (SelectDirection ''Southbound'') =
     (run mount browsing_trace)\<lparr>st := (st (run mount browsing_trace))\<lparr>direction := ''Southbound'',
          stopsLoaded := False, selectedStop := [], predictions := JArr [],
          predictionAttempted := False\<rparr>,
       pending := [GetStops ''22'' ''Southbound'', GetVehicles ''22'']\<rparr>"
    using select_direction_world [of "run mount browsing_trace" "''Southbound''"]
    by (simp add: browsing_world initial_state_def)
  show ?thesis unfolding w
    by (simp add: browsing_world initial_state_def render_stops_def length_gt_zero_def stops_22_north_def)
qed

text \<open>
  C9, as the code has it.  Whenever a step issues a stops request, the stops-loaded flag
  is false after the step and the message is not rendered.  The flag turns from false to
  true only by the completion of a stops request, and every completion of a stops
  request, successful or not, leaves it true.  The message is rendered exactly when a
  direction is selected, the flag is true and the stops are empty (their length is not
  positive).  The stops of the previous direction are not cleared when the fetch starts,
  so a stop list may be rendered while the fetch is pending.
\<close>

theorem stops_loaded_flag:
  "(length (filter is_stops_request (pending w))
      < length (filter is_stops_request (pending (step w e))) \<longrightarrow>
      \<not> stopsLoaded (st (step w e)) \<and> render_stops (st (step w e)) \<noteq> Inr NoStopDataMessage) \<and>
   (\<not> stopsLoaded (st w) \<and> stopsLoaded (st (step w e)) \<longrightarrow>
      (\<exists>i out rt dir. e = Deliver i out \<and> i < length (pending w) \<and> pending w ! i = GetStops rt dir)) \<and>
   (i < length (pending w) \<and> pending w ! i = GetStops rt dir \<longrightarrow>
      stopsLoaded (st (step w (Deliver i out)))) \<and>
   (render_stops s = Inr NoStopDataMessage \<longleftrightarrow>
      direction s \<noteq> [] \<and> stopsLoaded s \<and> length_gt_zero (stops s) = Inr False) \<and>
   (render_stops (s\<lparr>stops := JArr xs\<rparr>) = Inr NoStopDataMessage \<longleftrightarrow>
      direction s \<noteq> [] \<and> stopsLoaded s \<and> xs = [])"
proof (intro conjI)
  show "length (filter is_stops_request (pending w))
      < length (filter is_stops_request (pending (step w e))) \<longrightarrow>
      \<not> stopsLoaded (st (step w e)) \<and> render_stops (st (step w e)) \<noteq> Inr NoStopDataMessage"
    using stops_fetch_start [of w e] render_message_iff [of "st (step w e)"] by blast
  show "\<not> stopsLoaded (st w) \<and> stopsLoaded (st (step w e)) \<longrightarrow>
      (\<exists>i out rt dir. e = Deliver i out \<and> i < length (pending w) \<and> pending w ! i = GetStops rt dir)"
    using stops_loaded_only_on_completion [of w e] by blast
  show "i < length (pending w) \<and> pending w ! i = GetStops rt dir \<longrightarrow>
      stopsLoaded (st (step w (Deliver i out)))"
    using stops_completion_sets_flag [of i w rt dir out] by blast
  show "render_stops s = Inr NoStopDataMessage \<longleftrightarrow>
      direction s \<noteq> [] \<and> stopsLoaded s \<and> length_gt_zero (stops s) = Inr False"
    by (rule render_message_iff)
  show "render_stops (s\<lparr>stops := JArr xs\<rparr>) = Inr NoStopDataMessage \<longleftrightarrow>
      direction s \<noteq> [] \<and> stopsLoaded s \<and> xs = []"
    by (rule render_message_array)
qed

text \<open>
  C9, witness: the direction change to Southbound in \<open>browsing_trace\<close> issues a stops
  request.
\<close>

theorem stops_loaded_flag_witness:
  "length (filter is_stops_request (pending (run mount browsing_trace)))
     < length (filter is_stops_request
         (pending (step (run mount browsing_trace) (SelectDirection ''Southbound'')))) \<and>
   \<not> stopsLoaded (st (step (run mount browsing_trace) (SelectDirection ''Southbound''))) \<and>
   render_stops (st (step (run mount browsing_trace) (SelectDirection ''Southbound'')))
     \<noteq> Inr NoStopDataMessage"
proof -
  have w: "pending (run mount browsing_trace) = []"
    "pending (step (run mount browsing_trace) (SelectDirection ''Southbound''))
       = [GetStops ''22'' ''Southbound'', GetVehicles ''22'']"
    using select_direction_world [of "run mount browsing_trace" "''Southbound''"]
    by (simp_all add: browsing_world initial_state_def)
  have l: "length (filter is_stops_request (pending (run mount browsing_trace)))
     < length (filter is_stops_request
         (pending (step (run mount browsing_trace) (SelectDirection ''Southbound''))))"
    unfolding w by simp
  show ?thesis
    using stops_loaded_flag [of "run mount browsing_trace" "SelectDirection ''Southbound''"] l
    by blast
qed

section \<open>C10: selecting the placeholder route\<close>

text \<open>
  C10.  Choosing the placeholder of the route selector sets the route to the empty string
  and does nothing else: the list of requests in flight is the same, and direction, stop,
  directions, stops, predictions and vehicles keep their values.
\<close>

theorem select_placeholder_route:
  "step w (SelectRoute []) = w\<lparr>st := (st w)\<lparr>selectedRoute := []\<rparr>\<rparr> \<and>
   pending (step w (SelectRoute [])) = pending w \<and>
   direction (st (step w (SelectRoute []))) = direction (st w) \<and>
   selectedStop (st (step w (SelectRoute []))) = selectedStop (st w) \<and>
   directions (st (step w (SelectRoute []))) = directions (st w) \<and>
   stops (st (step w (SelectRoute []))) = stops (st w) \<and>
   predictions (st (step w (SelectRoute []))) = predictions (st w) \<and>
   vehicles (st (step w (SelectRoute []))) = vehicles (st w)"
  by (simp add: run_effects_no_route)

text \<open>
  C10, witness: the placeholder chosen after \<open>predicting_trace\<close>.
\<close>

theorem select_placeholder_route_witness:
  "step (run mount predicting_trace) (SelectRoute []) =
     (run mount predicting_trace)\<lparr>st := (st (run mount predicting_trace))\<lparr>selectedRoute := []\<rparr>\<rparr> \<and>
   predictions (st (step (run mount predicting_trace) (SelectRoute []))) = predictions_22_1 \<and>
   vehicles (st (step (run mount predicting_trace) (SelectRoute []))) = vehicles_22"
  using select_placeholder_route [of "run mount predicting_trace"]
  by (simp add: predicting_world)

end
